theory Spec2Isabelle
  imports Main "HOL-Library.Word"
begin

unbundle bit_operations_syntax

section \<open>The GD-ROM command core of KallistiOS (hardware/cdrom.c, dc/cdrom.h)\<close>

text \<open>
  The driver talks to the drive through BIOS syscalls, a millisecond timer, the
  scheduler and one mutex. None of these is part of cdrom.c, so they are the
  environment of the model: every answer the outside world gives (a request id, a
  command status, a clock reading, the drive's state, the result of set-mode) is taken
  from an oracle indexed by the number of calls made so far, and every call the driver
  makes is appended to a trace. The driver functions are state-passing functions over
  that trace and the call counters.
\<close>

type_synonym u32 = "32 word"
type_synonym u64 = "64 word"

subsection \<open>Constants of dc/cdrom.h\<close>

definition CD_CMD_RETRY_MAX :: nat where "CD_CMD_RETRY_MAX = 10"

text \<open>enum cd_cdda_mode\<close>
definition CDDA_TRACKS :: int where "CDDA_TRACKS = 0"
definition CDDA_SECTORS :: int where "CDDA_SECTORS = 1"

text \<open>enum cd_disc_types (the ones the driver tests)\<close>
definition CD_CDROM :: int where "CD_CDROM = 0x10"
definition CD_CDROM_XA :: int where "CD_CDROM_XA = 0x20"

text \<open>enum cd_cmd_code (the ones the driver sends in the functions below)\<close>
definition CMD_PLAY :: int where "CMD_PLAY = 20"
definition CMD_PLAY2 :: int where "CMD_PLAY2 = 21"
definition CMD_INIT :: int where "CMD_INIT = 24"

text \<open>enum cd_cmd_ret\<close>
definition CD_ERR_OK :: int where "CD_ERR_OK = 0"
definition CD_ERR_NO_DISC :: int where "CD_ERR_NO_DISC = 1"
definition CD_ERR_DISC_CHG :: int where "CD_ERR_DISC_CHG = 2"
definition CD_ERR_SYS :: int where "CD_ERR_SYS = 3"
definition CD_ERR_ABORTED :: int where "CD_ERR_ABORTED = 4"
definition CD_ERR_NO_ACTIVE :: int where "CD_ERR_NO_ACTIVE = 5"
definition CD_ERR_TIMEOUT :: int where "CD_ERR_TIMEOUT = 6"

text \<open>enum cd_read_sec_part\<close>
definition CD_READ_WHOLE_SECTOR :: int where "CD_READ_WHOLE_SECTOR = 0x1000"
definition CD_READ_DATA_AREA :: int where "CD_READ_DATA_AREA = 0x2000"
definition CD_READ_DEFAULT :: int where "CD_READ_DEFAULT = -1"

text \<open>enum cd_track_type\<close>
definition CD_TRACK_TYPE_MODE2_FORM1 :: int where "CD_TRACK_TYPE_MODE2_FORM1 = 0x0800"
definition CD_TRACK_TYPE_MODE1 :: int where "CD_TRACK_TYPE_MODE1 = 0x0400"
definition CD_TRACK_TYPE_ANY :: int where "CD_TRACK_TYPE_ANY = 0x0000"
definition CD_TRACK_TYPE_DEFAULT :: int where "CD_TRACK_TYPE_DEFAULT = -1"

text \<open>enum cd_cmd_chk\<close>
definition CD_CMD_FAILED :: int where "CD_CMD_FAILED = -1"
definition CD_CMD_NOT_FOUND :: int where "CD_CMD_NOT_FOUND = 0"
definition CD_CMD_PROCESSING :: int where "CD_CMD_PROCESSING = 1"
definition CD_CMD_COMPLETED :: int where "CD_CMD_COMPLETED = 2"
definition CD_CMD_STREAMING :: int where "CD_CMD_STREAMING = 3"
definition CD_CMD_BUSY :: int where "CD_CMD_BUSY = 4"

subsection \<open>The table of contents and its packed entries\<close>

text \<open>
  struct cd_toc: 99 packed 32-bit entries and the three pointer words. The array is a
  list; entry[i] is \<open>toc_entry toc ! i\<close>.
\<close>

record cd_toc =
  toc_entry :: "u32 list"
  toc_first :: u32
  toc_last :: u32
  toc_leadout_sector :: u32

text \<open>The macros TOC_LBA, TOC_ADR, TOC_CTRL and TOC_TRACK.\<close>

definition TOC_LBA :: "u32 \<Rightarrow> u32" where
  "TOC_LBA n = n AND 0x00ffffff"

definition TOC_ADR :: "u32 \<Rightarrow> u32" where
  "TOC_ADR n = drop_bit 24 (n AND 0x0f000000)"

definition TOC_CTRL :: "u32 \<Rightarrow> u32" where
  "TOC_CTRL n = drop_bit 28 (n AND 0xf0000000)"

definition TOC_TRACK :: "u32 \<Rightarrow> u32" where
  "TOC_TRACK n = drop_bit 16 (n AND 0x00ff0000)"

text \<open>
  The loop \<^verbatim>\<open>for(i = last; i >= first; i--)\<close> of cdrom_locate_data_track, on the
  unsigned 32-bit counter. The function is entered only after the check
  \<^verbatim>\<open>first < 1\<close> has failed; the loop repeats that check, which does not change while it
  runs, so that the recursion is total (with first = 0 the C condition i >= first could
  never become false).
\<close>

function locate_loop :: "cd_toc \<Rightarrow> u32 \<Rightarrow> u32 \<Rightarrow> u32" where
  "locate_loop toc first i =
     (if first < 1 then 0
      else if i \<ge> first then
        (if TOC_CTRL (toc_entry toc ! unat (i - 1)) = 4
         then TOC_LBA (toc_entry toc ! unat (i - 1))
         else locate_loop toc first (i - 1))
      else 0)"
  by pat_completeness auto
termination
proof (relation "measure (\<lambda>(toc, first, i). unat i)")
  show "wf (measure (\<lambda>(toc :: cd_toc, first :: u32, i :: u32). unat i))"
    by simp
next
  fix toc :: cd_toc and first i :: u32
  assume "\<not> first < 1" and "first \<le> i"
  then have "i \<noteq> 0"
    by auto
  then show "((toc, first, i - 1), (toc, first, i)) \<in> measure (\<lambda>(toc, first, i). unat i)"
    by (simp add: measure_unat)
qed

declare locate_loop.simps [simp del]

definition cdrom_locate_data_track :: "cd_toc \<Rightarrow> u32" where
  "cdrom_locate_data_track toc =
     (let first = TOC_TRACK (toc_first toc);
          last = TOC_TRACK (toc_last toc)
      in if first < 1 \<or> last > 99 \<or> first > last then 0
         else locate_loop toc first last)"

subsection \<open>Parameter blocks of the syscalls\<close>

text \<open>
  struct cd_cmd_chk_status, the extended status of a command, and its initialiser
  \<^verbatim>\<open>{0}\<close>.
\<close>

record cd_cmd_chk_status =
  chk_err1 :: int
  chk_err2 :: int
  chk_size :: nat
  chk_ata :: int

definition status_zero :: cd_cmd_chk_status where
  "status_zero = \<lparr>chk_err1 = 0, chk_err2 = 0, chk_size = 0, chk_ata = 0\<rparr>"

text \<open>struct cd_check_drive_params, and its initialiser \<^verbatim>\<open>{0}\<close>.\<close>

record cd_check_drive_params =
  drv_status :: int
  drv_disc_type :: int

definition drive_params_zero :: cd_check_drive_params where
  "drive_params_zero = \<lparr>drv_status = 0, drv_disc_type = 0\<rparr>"

text \<open>struct cd_sec_mode_params.\<close>

record cd_sec_mode_params =
  mode_RW :: u32
  mode_sector_part :: int
  mode_track_type :: int
  mode_sector_size :: int

text \<open>struct cd_cmd_play_params.\<close>

record cd_cmd_play_params =
  play_start :: u32
  play_end :: u32
  play_repeat :: u32

text \<open>
  The \<^verbatim>\<open>void *param\<close> of a command: NULL, a play block, or any other block (known
  here only by an address).
\<close>

datatype cmd_param = PARAM_NULL | PARAM_PLAY cd_cmd_play_params | PARAM_OTHER nat

subsection \<open>The environment: syscalls, timer, scheduler, mutex\<close>

text \<open>One event per call the driver makes, with the arguments and the value returned.\<close>

datatype event =
    E_mutex_lock
  | E_mutex_lock_irqsafe int
  | E_mutex_unlock
  | E_send_command int cmd_param int
  | E_exec_server
  | E_thd_pass
  | E_check_command int int cd_cmd_chk_status
  | E_gettime u64
  | E_abort_command int
  | E_dbglog
  | E_check_drive int cd_check_drive_params
  | E_sector_mode cd_sec_mode_params int

text \<open>
  What the outside world answers. \<open>check_command_ret env k\<close> is the answer of the
  firmware to the k-th status query: the value syscall_gdrom_check_command returns and
  the extended status the firmware has for the request at that moment.
  \<open>check_drive_ret env k\<close> likewise: the value syscall_gdrom_check_drive returns and the
  drive state the firmware reports.
\<close>

record env =
  send_command_ret :: "nat \<Rightarrow> int"
  check_command_ret :: "nat \<Rightarrow> int \<times> cd_cmd_chk_status"
  gettime_ret :: "nat \<Rightarrow> u64"
  check_drive_ret :: "nat \<Rightarrow> int \<times> cd_check_drive_params"
  sector_mode_ret :: "nat \<Rightarrow> int"

text \<open>
  The state the driver changes: how often each oracle has been asked, whether
  \<^verbatim>\<open>_g1_ata_mutex\<close> is held, and the trace of calls.
\<close>

record state =
  n_send :: nat
  n_check :: nat
  n_time :: nat
  n_drive :: nat
  n_mode :: nat
  gate_held :: bool
  trace :: "event list"

definition log_event :: "event \<Rightarrow> state \<Rightarrow> state" where
  "log_event e s = s\<lparr>trace := trace s @ [e]\<rparr>"

definition syscall_gdrom_send_command :: "env \<Rightarrow> int \<Rightarrow> cmd_param \<Rightarrow> state \<Rightarrow> int \<times> state" where
  "syscall_gdrom_send_command env cmd param s =
     (let cid = send_command_ret env (n_send s)
      in (cid, log_event (E_send_command cmd param cid) (s\<lparr>n_send := Suc (n_send s)\<rparr>)))"

definition syscall_gdrom_exec_server :: "state \<Rightarrow> state" where
  "syscall_gdrom_exec_server s = log_event E_exec_server s"

definition thd_pass :: "state \<Rightarrow> state" where
  "thd_pass s = log_event E_thd_pass s"

text \<open>
  dc/cdrom.h declares
  \<^verbatim>\<open>cd_cmd_chk_t syscall_gdrom_check_command(gdc_cmd_hnd_t hnd, cd_cmd_chk_status_t status)\<close>
  and \<^verbatim>\<open>int syscall_gdrom_check_drive(cd_check_drive_params_t params)\<close>: the block is
  passed by value, and the driver calls them with the block itself, not its address.
  However the firmware is reached behind these functions, a C call cannot change an
  argument passed by value, so the caller gets the return value and nothing else; its
  own block is as it was before the call. (The comments of the same declarations
  describe the parameter as a pointer that receives the status.) What the firmware
  reports is kept in the trace.
\<close>

definition syscall_gdrom_check_command ::
  "env \<Rightarrow> int \<Rightarrow> cd_cmd_chk_status \<Rightarrow> state \<Rightarrow> int \<times> state" where
  "syscall_gdrom_check_command env cid status s =
     (let (n, reported) = check_command_ret env (n_check s)
      in (n, log_event (E_check_command cid n reported) (s\<lparr>n_check := Suc (n_check s)\<rparr>)))"

definition timer_ms_gettime64 :: "env \<Rightarrow> state \<Rightarrow> u64 \<times> state" where
  "timer_ms_gettime64 env s =
     (let now = gettime_ret env (n_time s)
      in (now, log_event (E_gettime now) (s\<lparr>n_time := Suc (n_time s)\<rparr>)))"

definition syscall_gdrom_abort_command :: "int \<Rightarrow> state \<Rightarrow> state" where
  "syscall_gdrom_abort_command cid s = log_event (E_abort_command cid) s"

definition dbglog :: "state \<Rightarrow> state" where
  "dbglog s = log_event E_dbglog s"

definition syscall_gdrom_check_drive ::
  "env \<Rightarrow> cd_check_drive_params \<Rightarrow> state \<Rightarrow> int \<times> state" where
  "syscall_gdrom_check_drive env params s =
     (let (rv, reported) = check_drive_ret env (n_drive s)
      in (rv, log_event (E_check_drive rv reported) (s\<lparr>n_drive := Suc (n_drive s)\<rparr>)))"

definition syscall_gdrom_sector_mode :: "env \<Rightarrow> cd_sec_mode_params \<Rightarrow> state \<Rightarrow> int \<times> state" where
  "syscall_gdrom_sector_mode env params s =
     (let r = sector_mode_ret env (n_mode s)
      in (r, log_event (E_sector_mode params r) (s\<lparr>n_mode := Suc (n_mode s)\<rparr>)))"

text \<open>
  Modelled from the spec: the mutex primitives of kos/mutex.h (mutex_lock_scoped,
  mutex_lock, mutex_lock_irqsafe, mutex_unlock), which are not among the sources.
  The blocking acquire waits until the gate is free and then holds it, so the caller
  continues with the gate held; a scoped acquire is released on every exit path of the
  guarded function. The non-blocking acquire returns at once with a failure (non-zero)
  when the gate is already held, and otherwise takes the gate and returns 0.
\<close>

definition mutex_lock :: "state \<Rightarrow> state" where
  "mutex_lock s = log_event E_mutex_lock (s\<lparr>gate_held := True\<rparr>)"

definition mutex_unlock :: "state \<Rightarrow> state" where
  "mutex_unlock s = log_event E_mutex_unlock (s\<lparr>gate_held := False\<rparr>)"

definition mutex_lock_irqsafe :: "state \<Rightarrow> int \<times> state" where
  "mutex_lock_irqsafe s =
     (if gate_held s then (-1, log_event (E_mutex_lock_irqsafe (-1)) s)
      else (0, log_event (E_mutex_lock_irqsafe 0) (s\<lparr>gate_held := True\<rparr>)))"

subsection \<open>cdrom_exec_cmd_timed\<close>

text \<open>
  The submission loop \<^verbatim>\<open>for(i = 0; i < CD_CMD_RETRY_MAX; ++i)\<close>. The variable id
  (here cid, as \<open>id\<close> is the identity function of HOL) is threaded through, since the
  loop may end by its condition with the id of the last attempt. It has no initial value
  in the source; the first round assigns it, whatever value the loop is started with.
\<close>

function submit_loop :: "env \<Rightarrow> int \<Rightarrow> cmd_param \<Rightarrow> nat \<Rightarrow> int \<Rightarrow> state \<Rightarrow> int \<times> state" where
  "submit_loop env cmd param i cid s =
     (if i < CD_CMD_RETRY_MAX then
        (let (cid', s1) = syscall_gdrom_send_command env cmd param s
         in if cid' \<noteq> 0 then (cid', s1)
            else submit_loop env cmd param (Suc i) cid' (thd_pass (syscall_gdrom_exec_server s1)))
      else (cid, s))"
  by pat_completeness auto
termination
  by (relation "measure (\<lambda>(env, cmd, param, i, cid, s). CD_CMD_RETRY_MAX - i)") auto

declare submit_loop.simps [simp del]

text \<open>
  The polling loop \<^verbatim>\<open>do { ... } while(1)\<close>. It may run forever, so it takes fuel, one
  unit per iteration: \<open>None\<close> means the loop was still running when the fuel ran out.
  \<open>Inl r\<close> is the \<^verbatim>\<open>return r\<close> inside the loop, \<open>Inr n\<close> the \<^verbatim>\<open>break\<close> with
  the last value of n. The local variable status is an argument of every query and is
  never assigned.
\<close>

fun poll_loop ::
  "nat \<Rightarrow> env \<Rightarrow> int \<Rightarrow> cd_cmd_chk_status \<Rightarrow> u32 \<Rightarrow> u64 \<Rightarrow> state \<Rightarrow> (int + int) option \<times> state" where
  "poll_loop 0 env cid status timeout t_begin s = (None, s)"
| "poll_loop (Suc fuel) env cid status timeout t_begin s =
     (let s1 = syscall_gdrom_exec_server s;
          (n, s2) = syscall_gdrom_check_command env cid status s1
      in if n \<noteq> CD_CMD_PROCESSING \<and> n \<noteq> CD_CMD_BUSY then (Some (Inr n), s2)
         else if timeout \<noteq> 0 then
           (let (now, s3) = timer_ms_gettime64 env s2
            in if now - t_begin \<ge> ucast timeout then
                 (Some (Inl CD_ERR_TIMEOUT),
                  dbglog (syscall_gdrom_exec_server (syscall_gdrom_abort_command cid s3)))
               else poll_loop fuel env cid status timeout t_begin (thd_pass s3))
         else poll_loop fuel env cid status timeout t_begin (thd_pass s2))"

text \<open>
  The whole function. The gate is taken with mutex_lock_scoped, so every return
  releases it. The statement after the switch (the test of err2) cannot be reached,
  as every case of the switch returns. With timeout = 0 the variable begin is never
  read; the model gives it 0.
\<close>

definition cdrom_exec_cmd_timed ::
  "nat \<Rightarrow> env \<Rightarrow> int \<Rightarrow> cmd_param \<Rightarrow> u32 \<Rightarrow> state \<Rightarrow> int option \<times> state" where
  "cdrom_exec_cmd_timed fuel env cmd param timeout s =
     (let status = status_zero;
          s0 = mutex_lock s;
          (cid, s1) = submit_loop env cmd param 0 0 s0
      in if cid \<le> 0 then (Some CD_ERR_SYS, mutex_unlock s1)
         else
           (let (t_begin, s2) = (if timeout \<noteq> 0 then timer_ms_gettime64 env s1 else (0, s1))
            in case poll_loop fuel env cid status timeout t_begin s2 of
                 (None, s3) \<Rightarrow> (None, s3)
               | (Some (Inl r), s3) \<Rightarrow> (Some r, mutex_unlock s3)
               | (Some (Inr n), s3) \<Rightarrow>
                   (if n = CD_CMD_COMPLETED \<or> n = CD_CMD_STREAMING then
                      (Some CD_ERR_OK, mutex_unlock s3)
                    else if n = CD_CMD_NOT_FOUND then
                      (Some CD_ERR_NO_ACTIVE, mutex_unlock s3)
                    else if chk_err1 status = 2 then
                      (Some CD_ERR_NO_DISC, mutex_unlock s3)
                    else if chk_err1 status = 6 then
                      (Some CD_ERR_DISC_CHG, mutex_unlock s3)
                    else
                      (Some CD_ERR_SYS, mutex_unlock s3))))"

definition cdrom_exec_cmd :: "nat \<Rightarrow> env \<Rightarrow> int \<Rightarrow> cmd_param \<Rightarrow> state \<Rightarrow> int option \<times> state" where
  "cdrom_exec_cmd fuel env cmd param s = cdrom_exec_cmd_timed fuel env cmd param 0 s"

subsection \<open>cdrom_get_status\<close>

text \<open>The loop \<^verbatim>\<open>do { rv = syscall_gdrom_check_drive(params); ... } while(1)\<close>, with fuel.\<close>

fun check_drive_loop ::
  "nat \<Rightarrow> env \<Rightarrow> cd_check_drive_params \<Rightarrow> state \<Rightarrow> int option \<times> state" where
  "check_drive_loop 0 env params s = (None, s)"
| "check_drive_loop (Suc fuel) env params s =
     (let (rv, s1) = syscall_gdrom_check_drive env params s
      in if rv \<noteq> CD_CMD_BUSY then (Some rv, s1)
         else check_drive_loop fuel env params (thd_pass s1))"

text \<open>
  The out-parameters \<^verbatim>\<open>int *status, int *disc_type\<close>: \<open>None\<close> is a NULL pointer,
  \<open>Some v\<close> a pointer to a cell that holds v. The function returns rv and both cells as
  they are afterwards.
\<close>

definition cdrom_get_status ::
  "nat \<Rightarrow> env \<Rightarrow> int option \<Rightarrow> int option \<Rightarrow> state
     \<Rightarrow> (int \<times> int option \<times> int option) option \<times> state" where
  "cdrom_get_status fuel env status disc_type s =
     (let params = drive_params_zero;
          (locked, s0) = mutex_lock_irqsafe s
      in if locked \<noteq> 0 then (Some (-1, status, disc_type), s0)
         else case check_drive_loop fuel env params s0 of
                (None, s1) \<Rightarrow> (None, s1)
              | (Some rv, s1) \<Rightarrow>
                  (let s2 = mutex_unlock s1
                   in if rv \<ge> 0 then
                        (Some (rv, map_option (\<lambda>_. drv_status params) status,
                                   map_option (\<lambda>_. drv_disc_type params) disc_type), s2)
                      else
                        (Some (rv, map_option (\<lambda>_. -1) status,
                                   map_option (\<lambda>_. -1) disc_type), s2)))"

subsection \<open>cdrom_change_datatype and cdrom_reinit_ex\<close>

definition cdrom_change_datatype :: "env \<Rightarrow> int \<Rightarrow> int \<Rightarrow> int \<Rightarrow> state \<Rightarrow> int \<times> state" where
  "cdrom_change_datatype env sector_part track_type sector_size s =
     (let check_params = drive_params_zero;
          s0 = mutex_lock s;
          (sector_part', track_type', sector_size', s1) =
            (if sector_size = 2352 then
               (if sector_part = CD_READ_DEFAULT then CD_READ_WHOLE_SECTOR else sector_part,
                if track_type = CD_TRACK_TYPE_DEFAULT then CD_TRACK_TYPE_ANY else track_type,
                sector_size, s0)
             else
               (let (track_type'', sa) =
                      (if track_type = CD_TRACK_TYPE_DEFAULT then
                         (let (rv, sb) = syscall_gdrom_check_drive env check_params s0
                          in (if drv_disc_type check_params = CD_CDROM_XA
                              then CD_TRACK_TYPE_MODE2_FORM1 else CD_TRACK_TYPE_MODE1, sb))
                       else (track_type, s0))
                in (if sector_part = CD_READ_DEFAULT then CD_READ_DATA_AREA else sector_part,
                    track_type'',
                    if sector_size = -1 then 2048 else sector_size, sa)));
          params = \<lparr>mode_RW = 0, mode_sector_part = sector_part',
                    mode_track_type = track_type', mode_sector_size = sector_size'\<rparr>;
          (r, s2) = syscall_gdrom_sector_mode env params s1
      in (r, mutex_unlock s2))"

text \<open>
  cdrom_reinit_ex in two steps. First its control flow, with the two calls it makes as
  parameters: \<open>init_cycle\<close> stands for
  \<^verbatim>\<open>cdrom_exec_cmd_timed(CMD_INIT, NULL, 10000)\<close> and \<open>negotiate\<close> for
  \<^verbatim>\<open>cdrom_change_datatype(sector_part, track_type, sector_size)\<close>. The loop
  \<^verbatim>\<open>do { r = init_cycle(); } while(r == CD_ERR_DISC_CHG)\<close> takes a bound \<open>cycles\<close> on
  its rounds, as it may go on forever. Then the function itself, with the two calls
  filled in; \<open>fuel\<close> bounds the polls of each round.
\<close>

fun reinit_loop ::
  "nat \<Rightarrow> (state \<Rightarrow> int option \<times> state) \<Rightarrow> state \<Rightarrow> int option \<times> state" where
  "reinit_loop 0 init_cycle s = (None, s)"
| "reinit_loop (Suc cycles) init_cycle s =
     (case init_cycle s of
        (None, s1) \<Rightarrow> (None, s1)
      | (Some r, s1) \<Rightarrow>
          if r = CD_ERR_DISC_CHG then reinit_loop cycles init_cycle s1 else (Some r, s1))"

definition reinit_ex_flow ::
  "nat \<Rightarrow> (state \<Rightarrow> int option \<times> state) \<Rightarrow> (state \<Rightarrow> int \<times> state) \<Rightarrow> state
     \<Rightarrow> int option \<times> state" where
  "reinit_ex_flow cycles init_cycle negotiate s =
     (case reinit_loop cycles init_cycle s of
        (None, s1) \<Rightarrow> (None, s1)
      | (Some r, s1) \<Rightarrow>
          if r = CD_ERR_NO_DISC \<or> r = CD_ERR_SYS \<or> r = CD_ERR_TIMEOUT then (Some r, s1)
          else (let (r', s2) = negotiate s1 in (Some r', s2)))"

definition cdrom_reinit_ex ::
  "nat \<Rightarrow> nat \<Rightarrow> env \<Rightarrow> int \<Rightarrow> int \<Rightarrow> int \<Rightarrow> state \<Rightarrow> int option \<times> state" where
  "cdrom_reinit_ex cycles fuel env sector_part track_type sector_size s =
     reinit_ex_flow cycles
       (cdrom_exec_cmd_timed fuel env CMD_INIT PARAM_NULL 10000)
       (cdrom_change_datatype env sector_part track_type sector_size) s"

definition cdrom_reinit :: "nat \<Rightarrow> nat \<Rightarrow> env \<Rightarrow> state \<Rightarrow> int option \<times> state" where
  "cdrom_reinit cycles fuel env s =
     cdrom_reinit_ex cycles fuel env CD_READ_DEFAULT CD_TRACK_TYPE_DEFAULT (-1) s"

subsection \<open>cdrom_cdda_play\<close>

definition cdrom_cdda_play ::
  "nat \<Rightarrow> env \<Rightarrow> u32 \<Rightarrow> u32 \<Rightarrow> u32 \<Rightarrow> int \<Rightarrow> state \<Rightarrow> int option \<times> state" where
  "cdrom_cdda_play fuel env start finish repeat mode s =
     (let repeat' = (if repeat > 15 then 15 else repeat);
          params = \<lparr>play_start = start, play_end = finish, play_repeat = repeat'\<rparr>
      in if mode = CDDA_TRACKS then cdrom_exec_cmd fuel env CMD_PLAY (PARAM_PLAY params) s
         else if mode = CDDA_SECTORS then cdrom_exec_cmd fuel env CMD_PLAY2 (PARAM_PLAY params) s
         else (Some CD_ERR_SYS, s))"

subsection \<open>Notions used in the statements\<close>

text \<open>The track numbers held in the two pointer words, and the control nibble of track j.\<close>

definition first_track :: "cd_toc \<Rightarrow> u32" where
  "first_track toc = TOC_TRACK (toc_first toc)"

definition last_track :: "cd_toc \<Rightarrow> u32" where
  "last_track toc = TOC_TRACK (toc_last toc)"

definition track_ctrl :: "cd_toc \<Rightarrow> nat \<Rightarrow> u32" where
  "track_ctrl toc j = TOC_CTRL (toc_entry toc ! (j - 1))"

text \<open>
  The Result Classifier as the specification words it: a function of the terminal
  status and the primary error code alone.
\<close>

definition result_classifier :: "int \<Rightarrow> int \<Rightarrow> int" where
  "result_classifier n e1 =
     (if n = CD_CMD_COMPLETED \<or> n = CD_CMD_STREAMING then CD_ERR_OK
      else if n = CD_CMD_NOT_FOUND then CD_ERR_NO_ACTIVE
      else if e1 = 2 then CD_ERR_NO_DISC
      else if e1 = 6 then CD_ERR_DISC_CHG
      else CD_ERR_SYS)"

text \<open>The events of k refused submissions, each followed by a tick and a yield.\<close>

definition failed_attempts :: "int \<Rightarrow> cmd_param \<Rightarrow> nat \<Rightarrow> event list" where
  "failed_attempts cmd param k =
     concat (replicate k [E_send_command cmd param 0, E_exec_server, E_thd_pass])"

text \<open>
  The state in which cdrom_exec_cmd_timed leaves the submission loop when attempt k
  (counted from 0) is the first whose request id is not 0, and the state and the value
  of begin with which it enters the polling loop.
\<close>

definition after_submit :: "env \<Rightarrow> int \<Rightarrow> cmd_param \<Rightarrow> state \<Rightarrow> nat \<Rightarrow> state" where
  "after_submit env cmd param s k =
     s\<lparr>n_send := n_send s + Suc k, gate_held := True,
       trace := trace s @ E_mutex_lock # failed_attempts cmd param k
                @ [E_send_command cmd param (send_command_ret env (n_send s + k))]\<rparr>"

definition poll_entry :: "env \<Rightarrow> u32 \<Rightarrow> state \<Rightarrow> state" where
  "poll_entry env timeout s = (if timeout \<noteq> 0 then snd (timer_ms_gettime64 env s) else s)"

definition poll_begin :: "env \<Rightarrow> u32 \<Rightarrow> state \<Rightarrow> u64" where
  "poll_begin env timeout s = (if timeout \<noteq> 0 then gettime_ret env (n_time s) else 0)"

text \<open>Submissions and aborts in a trace.\<close>

fun is_send :: "event \<Rightarrow> bool" where
  "is_send (E_send_command cmd param cid) = True"
| "is_send _ = False"

fun is_abort :: "event \<Rightarrow> bool" where
  "is_abort (E_abort_command cid) = True"
| "is_abort _ = False"

definition count_aborts :: "state \<Rightarrow> nat" where
  "count_aborts s = length (filter is_abort (trace s))"

text \<open>
  The time elapsed at the m-th clock reading after the one a call started in state s
  takes as begin: the 64-bit difference the driver computes.
\<close>

definition elapsed :: "env \<Rightarrow> state \<Rightarrow> nat \<Rightarrow> u64" where
  "elapsed env s m = gettime_ret env (n_time s + m) - gettime_ret env (n_time s)"

subsection \<open>Example data\<close>

text \<open>
  A disc with tracks 1 to 3, control nibbles 0, 4, 4 and disc addresses 100, 200, 300;
  the same entries behind a first-track pointer of 0; and a disc of three audio tracks.
\<close>

definition toc_example :: cd_toc where
  "toc_example = \<lparr>toc_entry = [0x00000064, 0x400000C8, 0x4000012C] @ replicate 96 0,
     toc_first = 0x00010000, toc_last = 0x00030000, toc_leadout_sector = 0\<rparr>"

definition toc_malformed :: cd_toc where
  "toc_malformed = toc_example\<lparr>toc_first := 0\<rparr>"

definition toc_audio :: cd_toc where
  "toc_audio = \<lparr>toc_entry = [0x00000064, 0x000000C8, 0x0000012C] @ replicate 96 0,
     toc_first = 0x00010000, toc_last = 0x00030000, toc_leadout_sector = 0\<rparr>"

definition s_init :: state where
  "s_init = \<lparr>n_send = 0, n_check = 0, n_time = 0, n_drive = 0, n_mode = 0,
             gate_held = False, trace = []\<rparr>"

text \<open>
  A drive holding a CD-ROM XA that refuses a command twice and then accepts it as
  request 7, reports it as processing three times and then as completed; the clock
  advances 10 ms per reading.
\<close>

definition env_slow :: env where
  "env_slow =
     \<lparr>send_command_ret = (\<lambda>k. if k < 2 then 0 else 7),
      check_command_ret = (\<lambda>k. if k < 3 then (CD_CMD_PROCESSING, status_zero)
                                else (CD_CMD_COMPLETED, status_zero)),
      gettime_ret = (\<lambda>k. 1000 + 10 * of_nat k),
      check_drive_ret = (\<lambda>k. (0, \<lparr>drv_status = 1, drv_disc_type = CD_CDROM_XA\<rparr>)),
      sector_mode_ret = (\<lambda>k. 0)\<rparr>"

text \<open>A drive that never accepts a command.\<close>

definition env_refusing :: env where
  "env_refusing = env_slow\<lparr>send_command_ret := (\<lambda>k. 0)\<rparr>"

text \<open>A drive that accepts the command at once as request 7 and then stays busy.\<close>

definition env_stuck :: env where
  "env_stuck = env_slow\<lparr>send_command_ret := (\<lambda>k. 7),
     check_command_ret := (\<lambda>k. (if even k then CD_CMD_PROCESSING else CD_CMD_BUSY, status_zero))\<rparr>"

text \<open>
  An empty drive: every command is accepted at once and fails, and the firmware's
  extended status has the primary error code 2 (and a secondary code 9).
\<close>

definition env_no_disc :: env where
  "env_no_disc = env_slow\<lparr>send_command_ret := (\<lambda>k. 7),
     check_command_ret := (\<lambda>k. (CD_CMD_FAILED, status_zero\<lparr>chk_err1 := 2, chk_err2 := 9\<rparr>))\<rparr>"

text \<open>
  A drive whose disc has been changed: every command is accepted at once; the first two
  commands fail, the firmware's extended status having the primary error code 6, and
  the third completes.
\<close>

definition env_disc_changed :: env where
  "env_disc_changed = env_slow\<lparr>send_command_ret := (\<lambda>k. 7),
     check_command_ret := (\<lambda>k. if k < 2 then (CD_CMD_FAILED, status_zero\<lparr>chk_err1 := 6\<rparr>)
                                else (CD_CMD_COMPLETED, status_zero))\<rparr>"

section \<open>Properties\<close>

lemmas cd_consts =
  CD_CMD_RETRY_MAX_def CDDA_TRACKS_def CDDA_SECTORS_def CD_CDROM_def CD_CDROM_XA_def
  CMD_PLAY_def CMD_PLAY2_def CMD_INIT_def
  CD_ERR_OK_def CD_ERR_NO_DISC_def CD_ERR_DISC_CHG_def CD_ERR_SYS_def CD_ERR_ABORTED_def
  CD_ERR_NO_ACTIVE_def CD_ERR_TIMEOUT_def
  CD_READ_WHOLE_SECTOR_def CD_READ_DATA_AREA_def CD_READ_DEFAULT_def
  CD_TRACK_TYPE_MODE2_FORM1_def CD_TRACK_TYPE_MODE1_def CD_TRACK_TYPE_ANY_def
  CD_TRACK_TYPE_DEFAULT_def
  CD_CMD_FAILED_def CD_CMD_NOT_FOUND_def CD_CMD_PROCESSING_def CD_CMD_COMPLETED_def
  CD_CMD_STREAMING_def CD_CMD_BUSY_def

lemmas env_calls =
  log_event_def syscall_gdrom_send_command_def syscall_gdrom_exec_server_def thd_pass_def
  syscall_gdrom_check_command_def timer_ms_gettime64_def syscall_gdrom_abort_command_def
  dbglog_def syscall_gdrom_check_drive_def syscall_gdrom_sector_mode_def
  mutex_lock_def mutex_unlock_def mutex_lock_irqsafe_def

subsection \<open>Locating the data track\<close>

lemma locate_loop_none:
  "\<not> first < 1 \<Longrightarrow> \<forall>j. unat first \<le> j \<and> j \<le> unat i \<longrightarrow> TOC_CTRL (toc_entry toc ! (j - 1)) \<noteq> 4
   \<Longrightarrow> locate_loop toc first i = 0"
proof (induction toc first i rule: locate_loop.induct)
  case (1 toc first i)
  show ?case
  proof (cases "first \<le> i")
    case False
    then show ?thesis using "1.prems"(1) by (simp add: locate_loop.simps)
  next
    case True
    with "1.prems"(1) have nz: "i \<noteq> 0" by auto
    have ui: "unat (i - 1) = unat i - 1" using nz by (simp add: unat_minus_one)
    from True have le: "unat first \<le> unat i" by (simp add: word_le_nat_alt)
    have here: "TOC_CTRL (toc_entry toc ! unat (i - 1)) \<noteq> 4"
      using "1.prems"(2) [rule_format, of "unat i"] le ui by simp
    have rest: "\<forall>j. unat first \<le> j \<and> j \<le> unat (i - 1) \<longrightarrow> TOC_CTRL (toc_entry toc ! (j - 1)) \<noteq> 4"
      using "1.prems"(2) ui by auto
    have "locate_loop toc first (i - 1) = 0"
      using "1.IH" "1.prems"(1) True here rest by blast
    then show ?thesis
      using "1.prems"(1) True here by (subst locate_loop.simps) simp
  qed
qed

lemma locate_loop_found:
  "\<not> first < 1 \<Longrightarrow> unat first \<le> j \<Longrightarrow> j \<le> unat i
   \<Longrightarrow> TOC_CTRL (toc_entry toc ! (j - 1)) = 4
   \<Longrightarrow> \<forall>k. j < k \<and> k \<le> unat i \<longrightarrow> TOC_CTRL (toc_entry toc ! (k - 1)) \<noteq> 4
   \<Longrightarrow> locate_loop toc first i = TOC_LBA (toc_entry toc ! (j - 1))"
proof (induction toc first i rule: locate_loop.induct)
  case (1 toc first i)
  from "1.prems"(2,3) have le: "first \<le> i" by (simp add: word_le_nat_alt)
  with "1.prems"(1) have nz: "i \<noteq> 0" by auto
  have ui: "unat (i - 1) = unat i - 1" using nz by (simp add: unat_minus_one)
  show ?case
  proof (cases "j = unat i")
    case True
    then show ?thesis
      using "1.prems"(1,4) le ui by (subst locate_loop.simps) simp
  next
    case False
    with "1.prems"(3) have lt: "j < unat i" by simp
    then have here: "TOC_CTRL (toc_entry toc ! unat (i - 1)) \<noteq> 4"
      using "1.prems"(5) ui by simp
    have j_le: "j \<le> unat (i - 1)" using lt ui by simp
    have rest: "\<forall>k. j < k \<and> k \<le> unat (i - 1) \<longrightarrow> TOC_CTRL (toc_entry toc ! (k - 1)) \<noteq> 4"
      using "1.prems"(5) ui by auto
    have "locate_loop toc first (i - 1) = TOC_LBA (toc_entry toc ! (j - 1))"
      using "1.IH" "1.prems"(1,2,4) le here j_le rest by blast
    then show ?thesis
      using "1.prems"(1) le here by (subst locate_loop.simps) simp
  qed
qed

text \<open>
  C6. When the first track extracted from the TOC is below 1, or the last track is above
  99, or the first is above the last, cdrom_locate_data_track returns 0 whatever the
  entries hold. Otherwise it returns the low 24 bits (the FAD) of the entry of the
  highest-numbered track between first and last whose control nibble is 4, and 0 when
  no track in that range has control nibble 4.
\<close>

theorem cdrom_locate_data_track_spec:
  "(first_track toc < 1 \<or> last_track toc > 99 \<or> first_track toc > last_track toc
      \<longrightarrow> cdrom_locate_data_track toc = 0) \<and>
   (\<not> (first_track toc < 1 \<or> last_track toc > 99 \<or> first_track toc > last_track toc) \<longrightarrow>
      (\<forall>j. unat (first_track toc) \<le> j \<and> j \<le> unat (last_track toc) \<and> track_ctrl toc j = 4 \<and>
           (\<forall>k. j < k \<and> k \<le> unat (last_track toc) \<longrightarrow> track_ctrl toc k \<noteq> 4)
         \<longrightarrow> cdrom_locate_data_track toc = TOC_LBA (toc_entry toc ! (j - 1))) \<and>
      ((\<forall>j. unat (first_track toc) \<le> j \<and> j \<le> unat (last_track toc) \<longrightarrow> track_ctrl toc j \<noteq> 4)
         \<longrightarrow> cdrom_locate_data_track toc = 0))"
proof (intro conjI impI allI)
  assume "first_track toc < 1 \<or> last_track toc > 99 \<or> first_track toc > last_track toc"
  then show "cdrom_locate_data_track toc = 0"
    by (simp add: cdrom_locate_data_track_def first_track_def last_track_def Let_def)
next
  fix j
  assume ok: "\<not> (first_track toc < 1 \<or> last_track toc > 99 \<or> first_track toc > last_track toc)"
    and j: "unat (first_track toc) \<le> j \<and> j \<le> unat (last_track toc) \<and> track_ctrl toc j = 4 \<and>
            (\<forall>k. j < k \<and> k \<le> unat (last_track toc) \<longrightarrow> track_ctrl toc k \<noteq> 4)"
  have "locate_loop toc (first_track toc) (last_track toc) = TOC_LBA (toc_entry toc ! (j - 1))"
    using ok j by (intro locate_loop_found) (auto simp: track_ctrl_def)
  then show "cdrom_locate_data_track toc = TOC_LBA (toc_entry toc ! (j - 1))"
    using ok by (simp add: cdrom_locate_data_track_def first_track_def last_track_def Let_def)
next
  assume ok: "\<not> (first_track toc < 1 \<or> last_track toc > 99 \<or> first_track toc > last_track toc)"
    and none: "\<forall>j. unat (first_track toc) \<le> j \<and> j \<le> unat (last_track toc) \<longrightarrow> track_ctrl toc j \<noteq> 4"
  have "locate_loop toc (first_track toc) (last_track toc) = 0"
    using ok none by (intro locate_loop_none) (auto simp: track_ctrl_def)
  then show "cdrom_locate_data_track toc = 0"
    using ok by (simp add: cdrom_locate_data_track_def first_track_def last_track_def Let_def)
qed

theorem cdrom_locate_data_track_witness:
  "cdrom_locate_data_track toc_example = 300 \<and>
   cdrom_locate_data_track toc_malformed = 0 \<and>
   cdrom_locate_data_track toc_audio = 0"
proof (intro conjI)
  have f: "first_track toc_example = 1" and l: "last_track toc_example = 3"
    by (simp_all add: first_track_def last_track_def TOC_TRACK_def toc_example_def)
  have c: "track_ctrl toc_example 3 = 4"
    by (simp add: track_ctrl_def TOC_CTRL_def toc_example_def)
  have a: "TOC_LBA (toc_entry toc_example ! (3 - 1)) = 300"
    by (simp add: TOC_LBA_def toc_example_def)
  show "cdrom_locate_data_track toc_example = 300"
    using cdrom_locate_data_track_spec [of toc_example] f l c a by auto
next
  have "first_track toc_malformed < 1"
    by (simp add: first_track_def TOC_TRACK_def toc_malformed_def toc_example_def)
  then show "cdrom_locate_data_track toc_malformed = 0"
    using cdrom_locate_data_track_spec [of toc_malformed] by blast
next
  have f: "first_track toc_audio = 1" and l: "last_track toc_audio = 3"
    by (simp_all add: first_track_def last_track_def TOC_TRACK_def toc_audio_def)
  have "track_ctrl toc_audio j \<noteq> 4" if "1 \<le> j" "j \<le> 3" for j
  proof -
    from that have "j = 1 \<or> j = 2 \<or> j = 3" by auto
    then show ?thesis
      by (auto simp: track_ctrl_def TOC_CTRL_def toc_audio_def)
  qed
  then show "cdrom_locate_data_track toc_audio = 0"
    using cdrom_locate_data_track_spec [of toc_audio] f l by auto
qed

subsection \<open>The submission loop and the polling loop\<close>

lemma submit_loop_fail:
  "i + k = CD_CMD_RETRY_MAX \<Longrightarrow> \<forall>j<k. send_command_ret env (n_send s + j) = 0 \<Longrightarrow>
   submit_loop env cmd param i cid s =
     (if k = 0 then cid else 0,
      s\<lparr>n_send := n_send s + k,
        trace := trace s @ failed_attempts cmd param k\<rparr>)"
proof (induction k arbitrary: i cid s)
  case 0
  then show ?case by (subst submit_loop.simps) (simp add: failed_attempts_def)
next
  case (Suc k)
  from Suc.prems(1) have lt: "i < CD_CMD_RETRY_MAX" by simp
  from Suc.prems(2) have z: "send_command_ret env (n_send s) = 0" by force
  let ?s' = "thd_pass (syscall_gdrom_exec_server (snd (syscall_gdrom_send_command env cmd param s)))"
  have ns: "n_send ?s' = Suc (n_send s)" by (simp add: env_calls Let_def)
  have rest: "\<forall>j<k. send_command_ret env (n_send ?s' + j) = 0"
    using Suc.prems(2) ns by auto
  have IH: "submit_loop env cmd param (Suc i) 0 ?s' =
     (if k = 0 then 0 else 0,
      ?s'\<lparr>n_send := n_send ?s' + k,
        trace := trace ?s' @ failed_attempts cmd param k\<rparr>)"
    using Suc.prems(1) rest by (intro Suc.IH) simp
  show ?case
    using lt z IH by (subst submit_loop.simps) (simp add: env_calls Let_def failed_attempts_def)
qed

lemma submit_loop_accept:
  "i + k < CD_CMD_RETRY_MAX \<Longrightarrow> \<forall>j<k. send_command_ret env (n_send s + j) = 0 \<Longrightarrow>
   send_command_ret env (n_send s + k) \<noteq> 0 \<Longrightarrow>
   submit_loop env cmd param i cid s =
     (send_command_ret env (n_send s + k),
      s\<lparr>n_send := n_send s + Suc k,
        trace := trace s @ failed_attempts cmd param k
                 @ [E_send_command cmd param (send_command_ret env (n_send s + k))]\<rparr>)"
proof (induction k arbitrary: i cid s)
  case 0
  then show ?case by (subst submit_loop.simps) (simp add: env_calls Let_def failed_attempts_def)
next
  case (Suc k)
  from Suc.prems(1) have lt: "i < CD_CMD_RETRY_MAX" by simp
  from Suc.prems(2) have z: "send_command_ret env (n_send s) = 0" by force
  let ?s' = "thd_pass (syscall_gdrom_exec_server (snd (syscall_gdrom_send_command env cmd param s)))"
  have ns: "n_send ?s' = Suc (n_send s)" by (simp add: env_calls Let_def)
  have rest: "\<forall>j<k. send_command_ret env (n_send ?s' + j) = 0"
    using Suc.prems(2) ns by auto
  have last: "send_command_ret env (n_send ?s' + k) \<noteq> 0"
    using Suc.prems(3) ns by simp
  have IH: "submit_loop env cmd param (Suc i) 0 ?s' =
     (send_command_ret env (n_send ?s' + k),
      ?s'\<lparr>n_send := n_send ?s' + Suc k,
        trace := trace ?s' @ failed_attempts cmd param k
                 @ [E_send_command cmd param (send_command_ret env (n_send ?s' + k))]\<rparr>)"
    using Suc.prems(1) rest last by (intro Suc.IH) simp_all
  show ?case
    using lt z IH by (subst submit_loop.simps) (simp add: env_calls Let_def failed_attempts_def)
qed

text \<open>Any run of the submission loop is one of the two.\<close>

lemma submit_loop_cases:
  obtains (fail) "\<forall>j<CD_CMD_RETRY_MAX. send_command_ret env (n_send s + j) = 0"
  | (accept) k where "k < CD_CMD_RETRY_MAX" "\<forall>j<k. send_command_ret env (n_send s + j) = 0"
      "send_command_ret env (n_send s + k) \<noteq> 0"
proof (cases "\<forall>j<CD_CMD_RETRY_MAX. send_command_ret env (n_send s + j) = 0")
  case True
  then show ?thesis by (rule fail)
next
  case False
  then obtain j where j: "j < CD_CMD_RETRY_MAX" "send_command_ret env (n_send s + j) \<noteq> 0"
    by auto
  define k where "k = (LEAST j. send_command_ret env (n_send s + j) \<noteq> 0)"
  have k1: "send_command_ret env (n_send s + k) \<noteq> 0"
    unfolding k_def using j(2) by (rule LeastI)
  have k2: "k \<le> j" unfolding k_def using j(2) by (rule Least_le)
  have k3: "\<forall>m<k. send_command_ret env (n_send s + m) = 0"
    unfolding k_def using not_less_Least by blast
  show ?thesis
    using k1 k2 k3 j(1) by (intro accept [of k]) auto
qed

lemma poll_loop_Suc_cases:
  assumes "poll_loop (Suc fuel) env cid status timeout t_begin s = (res, s')"
  obtains
    (break) n st where
      "check_command_ret env (n_check s) = (n, st)"
      "n \<noteq> CD_CMD_PROCESSING" "n \<noteq> CD_CMD_BUSY"
      "res = Some (Inr n)"
      "s' = s\<lparr>n_check := Suc (n_check s),
              trace := trace s @ [E_exec_server, E_check_command cid n st]\<rparr>"
  | (expired) n st where
      "check_command_ret env (n_check s) = (n, st)"
      "n = CD_CMD_PROCESSING \<or> n = CD_CMD_BUSY"
      "timeout \<noteq> 0" "ucast timeout \<le> gettime_ret env (n_time s) - t_begin"
      "res = Some (Inl CD_ERR_TIMEOUT)"
      "s' = s\<lparr>n_check := Suc (n_check s), n_time := Suc (n_time s),
              trace := trace s @ [E_exec_server, E_check_command cid n st,
                                  E_gettime (gettime_ret env (n_time s)),
                                  E_abort_command cid, E_exec_server, E_dbglog]\<rparr>"
  | (again_timed) n st where
      "check_command_ret env (n_check s) = (n, st)"
      "n = CD_CMD_PROCESSING \<or> n = CD_CMD_BUSY"
      "timeout \<noteq> 0" "\<not> ucast timeout \<le> gettime_ret env (n_time s) - t_begin"
      "poll_loop fuel env cid status timeout t_begin
         (s\<lparr>n_check := Suc (n_check s), n_time := Suc (n_time s),
            trace := trace s @ [E_exec_server, E_check_command cid n st,
                                E_gettime (gettime_ret env (n_time s)), E_thd_pass]\<rparr>) = (res, s')"
  | (again) n st where
      "check_command_ret env (n_check s) = (n, st)"
      "n = CD_CMD_PROCESSING \<or> n = CD_CMD_BUSY"
      "timeout = 0"
      "poll_loop fuel env cid status timeout t_begin
         (s\<lparr>n_check := Suc (n_check s),
            trace := trace s @ [E_exec_server, E_check_command cid n st, E_thd_pass]\<rparr>) = (res, s')"
proof -
  obtain n st where c: "check_command_ret env (n_check s) = (n, st)"
    by (cases "check_command_ret env (n_check s)")
  show ?thesis
  proof (cases "n \<noteq> CD_CMD_PROCESSING \<and> n \<noteq> CD_CMD_BUSY")
    case True
    with assms c show ?thesis
      by (intro break [of n st]) (auto simp: env_calls Let_def)
  next
    case nonterm: False
    show ?thesis
    proof (cases "timeout = 0")
      case True
      with assms c nonterm show ?thesis
        by (intro again [of n st]) (auto simp: env_calls Let_def)
    next
      case timed: False
      show ?thesis
      proof (cases "ucast timeout \<le> gettime_ret env (n_time s) - t_begin")
        case True
        with assms c nonterm timed show ?thesis
          by (intro expired [of n st]) (auto simp: env_calls Let_def)
      next
        case False
        with assms c nonterm timed show ?thesis
          by (intro again_timed [of n st]) (auto simp: env_calls Let_def)
      qed
    qed
  qed
qed

lemma poll_loop_frame:
  "poll_loop fuel env cid status timeout t_begin s = (res, s') \<Longrightarrow>
   n_send s' = n_send s \<and> n_drive s' = n_drive s \<and> n_mode s' = n_mode s \<and>
   gate_held s' = gate_held s"
proof (induction fuel arbitrary: s)
  case 0
  then show ?case by simp
next
  case (Suc fuel)
  from Suc.prems show ?case
    by (cases rule: poll_loop_Suc_cases) (use Suc.IH in force)+
qed

lemma poll_loop_result:
  "poll_loop fuel env cid status timeout t_begin s = (Some res, s') \<Longrightarrow>
   n_check s < n_check s' \<and>
   (case res of
      Inr n \<Rightarrow> fst (check_command_ret env (n_check s' - 1)) = n \<and>
                n \<noteq> CD_CMD_PROCESSING \<and> n \<noteq> CD_CMD_BUSY
    | Inl r \<Rightarrow> r = CD_ERR_TIMEOUT \<and> timeout \<noteq> 0 \<and>
               (fst (check_command_ret env (n_check s' - 1)) = CD_CMD_PROCESSING \<or>
                fst (check_command_ret env (n_check s' - 1)) = CD_CMD_BUSY))"
proof (induction fuel arbitrary: s)
  case 0
  then show ?case by simp
next
  case (Suc fuel)
  from Suc.prems show ?case
  proof (cases rule: poll_loop_Suc_cases)
    case (break n st)
    then show ?thesis by simp
  next
    case (expired n st)
    then show ?thesis by auto
  next
    case (again_timed n st)
    from Suc.IH [OF again_timed(5)] show ?thesis by auto
  next
    case (again n st)
    from Suc.IH [OF again(4)] show ?thesis by auto
  qed
qed

subsection \<open>The three ways through cdrom_exec_cmd_timed\<close>

lemma exec_submit_failed:
  assumes "\<forall>j<CD_CMD_RETRY_MAX. send_command_ret env (n_send s + j) = 0"
  shows "cdrom_exec_cmd_timed fuel env cmd param timeout s =
     (Some CD_ERR_SYS,
      s\<lparr>n_send := n_send s + CD_CMD_RETRY_MAX, gate_held := False,
        trace := trace s @ E_mutex_lock # failed_attempts cmd param CD_CMD_RETRY_MAX
                 @ [E_mutex_unlock]\<rparr>)"
proof -
  have "submit_loop env cmd param 0 0 (mutex_lock s) =
     (0, (mutex_lock s)\<lparr>n_send := n_send (mutex_lock s) + CD_CMD_RETRY_MAX,
        trace := trace (mutex_lock s) @ failed_attempts cmd param CD_CMD_RETRY_MAX\<rparr>)"
    using assms
    by (subst submit_loop_fail [where k = CD_CMD_RETRY_MAX])
       (simp_all add: mutex_lock_def log_event_def CD_CMD_RETRY_MAX_def)
  then show ?thesis
    by (simp add: cdrom_exec_cmd_timed_def Let_def mutex_lock_def mutex_unlock_def log_event_def)
qed

lemma submit_loop_accepted:
  assumes "k < CD_CMD_RETRY_MAX" "\<forall>j<k. send_command_ret env (n_send s + j) = 0"
    "send_command_ret env (n_send s + k) \<noteq> 0"
  shows "submit_loop env cmd param 0 0 (mutex_lock s) =
     (send_command_ret env (n_send s + k), after_submit env cmd param s k)"
  using assms
  by (subst submit_loop_accept [where k = k])
     (simp_all add: mutex_lock_def log_event_def after_submit_def)

lemma exec_submit_negative:
  assumes "k < CD_CMD_RETRY_MAX" "\<forall>j<k. send_command_ret env (n_send s + j) = 0"
    "send_command_ret env (n_send s + k) < 0"
  shows "cdrom_exec_cmd_timed fuel env cmd param timeout s =
     (Some CD_ERR_SYS, mutex_unlock (after_submit env cmd param s k))"
proof -
  have "send_command_ret env (n_send s + k) \<noteq> 0" using assms(3) by simp
  from submit_loop_accepted [OF assms(1,2) this] assms(3) show ?thesis
    by (simp add: cdrom_exec_cmd_timed_def Let_def)
qed

lemma exec_polled:
  assumes "k < CD_CMD_RETRY_MAX" "\<forall>j<k. send_command_ret env (n_send s + j) = 0"
    "0 < send_command_ret env (n_send s + k)"
  shows "cdrom_exec_cmd_timed fuel env cmd param timeout s =
     (case poll_loop fuel env (send_command_ret env (n_send s + k)) status_zero timeout
             (poll_begin env timeout s) (poll_entry env timeout (after_submit env cmd param s k)) of
        (None, s3) \<Rightarrow> (None, s3)
      | (Some (Inl r), s3) \<Rightarrow> (Some r, mutex_unlock s3)
      | (Some (Inr n), s3) \<Rightarrow>
          (Some (result_classifier n (chk_err1 status_zero)), mutex_unlock s3))"
proof -
  have nz: "send_command_ret env (n_send s + k) \<noteq> 0" using assms(3) by simp
  have nt: "n_time (after_submit env cmd param s k) = n_time s"
    by (simp add: after_submit_def)
  show ?thesis
    using submit_loop_accepted [OF assms(1,2) nz] assms(3) nt
    by (auto simp: cdrom_exec_cmd_timed_def Let_def poll_entry_def poll_begin_def
          timer_ms_gettime64_def result_classifier_def
        split: prod.splits option.splits sum.splits)
qed

subsection \<open>Classification of a terminal completion\<close>

text \<open>
  What a call returns after a poll that ended with a terminal status n: the Result
  Classifier applied to n and to the primary error code of the driver's own status
  block, which still holds its initial zeros. The firmware's extended status does not
  reach the result.
\<close>

lemma exec_terminal_result:
  assumes run: "cdrom_exec_cmd_timed fuel env cmd param timeout s = (Some r, s')"
    and polled: "n_check s < n_check s'"
    and final: "fst (check_command_ret env (n_check s' - 1)) = n"
    and terminal: "n \<noteq> CD_CMD_PROCESSING" "n \<noteq> CD_CMD_BUSY"
  shows "r = result_classifier n (chk_err1 status_zero)"
proof (cases rule: submit_loop_cases [of env s])
  case fail
  from exec_submit_failed [OF fail, of fuel cmd param timeout] run polled
  show ?thesis by auto
next
  case (accept k)
  show ?thesis
  proof (cases "send_command_ret env (n_send s + k) < 0")
    case True
    from exec_submit_negative [OF accept(1,2) True, of fuel cmd param timeout] run polled
    show ?thesis by (auto simp: mutex_unlock_def log_event_def after_submit_def)
  next
    case False
    with accept(3) have pos: "0 < send_command_ret env (n_send s + k)" by simp
    obtain res s3 where
      p: "poll_loop fuel env (send_command_ret env (n_send s + k)) status_zero timeout
            (poll_begin env timeout s) (poll_entry env timeout (after_submit env cmd param s k))
          = (res, s3)"
      by force
    from exec_polled [OF accept(1,2) pos, of fuel cmd param timeout] run p
    obtain v where res: "res = Some v" and s': "s' = mutex_unlock s3"
      by (auto split: option.splits sum.splits)
    have nc: "n_check s' = n_check s3"
      using s' by (simp add: mutex_unlock_def log_event_def)
    from poll_loop_result [OF p [unfolded res]] final terminal nc
    have v: "v = Inr n"
      by (cases v) auto
    from exec_polled [OF accept(1,2) pos, of fuel cmd param timeout] run p res v
    show ?thesis by simp
  qed
qed

lemma exec_terminal_failure_is_sys:
  assumes "cdrom_exec_cmd_timed fuel env cmd param timeout s = (Some r, s')"
    and "n_check s < n_check s'"
    and "fst (check_command_ret env (n_check s' - 1)) = n"
    and "n \<noteq> CD_CMD_PROCESSING" "n \<noteq> CD_CMD_BUSY"
    and "n \<noteq> CD_CMD_COMPLETED" "n \<noteq> CD_CMD_STREAMING" "n \<noteq> CD_CMD_NOT_FOUND"
  shows "r = CD_ERR_SYS"
  using exec_terminal_result [OF assms(1-5)] assms(6-8)
  by (simp add: result_classifier_def status_zero_def)

text \<open>
  C1. The claim: after a terminal status other than completed, streaming and not-found,
  cdrom_exec_cmd_timed returns no-disc when the primary error code is 2 and
  disc-changed when it is 6. On the code: with an empty drive, where the firmware
  answers the first status query with CD_CMD_FAILED and an extended status whose
  primary error code is 2, the call returns CD_ERR_SYS, where the Result Classifier
  gives CD_ERR_NO_DISC. The driver hands its status block to
  syscall_gdrom_check_command by value and then reads err1 from its own block, which
  is still zero.
\<close>

theorem cdrom_exec_cmd_timed_no_disc_is_sys:
  "check_command_ret env_no_disc 0 = (CD_CMD_FAILED, status_zero\<lparr>chk_err1 := 2, chk_err2 := 9\<rparr>) \<and>
   result_classifier CD_CMD_FAILED 2 = CD_ERR_NO_DISC \<and>
   cdrom_exec_cmd_timed 1 env_no_disc CMD_INIT PARAM_NULL 10000 s_init =
     (Some CD_ERR_SYS,
      s_init\<lparr>n_send := 1, n_check := 1, n_time := 1,
        trace := [E_mutex_lock, E_send_command CMD_INIT PARAM_NULL 7, E_gettime 1000,
                  E_exec_server,
                  E_check_command 7 CD_CMD_FAILED (status_zero\<lparr>chk_err1 := 2, chk_err2 := 9\<rparr>),
                  E_mutex_unlock]\<rparr>) \<and>
   CD_ERR_SYS \<noteq> CD_ERR_NO_DISC"
proof (intro conjI)
  show "check_command_ret env_no_disc 0 = (CD_CMD_FAILED, status_zero\<lparr>chk_err1 := 2, chk_err2 := 9\<rparr>)"
    by (simp add: env_no_disc_def)
  show "result_classifier CD_CMD_FAILED 2 = CD_ERR_NO_DISC"
    by (simp add: result_classifier_def cd_consts)
  show "CD_ERR_SYS \<noteq> CD_ERR_NO_DISC"
    by (simp add: cd_consts)
  have sub: "(0::nat) < CD_CMD_RETRY_MAX" "\<forall>j<0. send_command_ret env_no_disc (n_send s_init + j) = 0"
      "0 < send_command_ret env_no_disc (n_send s_init + 0)"
    by (simp_all add: env_no_disc_def CD_CMD_RETRY_MAX_def)
  show "cdrom_exec_cmd_timed 1 env_no_disc CMD_INIT PARAM_NULL 10000 s_init =
     (Some CD_ERR_SYS,
      s_init\<lparr>n_send := 1, n_check := 1, n_time := 1,
        trace := [E_mutex_lock, E_send_command CMD_INIT PARAM_NULL 7, E_gettime 1000,
                  E_exec_server,
                  E_check_command 7 CD_CMD_FAILED (status_zero\<lparr>chk_err1 := 2, chk_err2 := 9\<rparr>),
                  E_mutex_unlock]\<rparr>)"
    unfolding exec_polled [OF sub, of 1 CMD_INIT PARAM_NULL 10000]
    by (simp add: poll_entry_def poll_begin_def after_submit_def failed_attempts_def
          env_calls Let_def env_no_disc_def env_slow_def s_init_def
          result_classifier_def status_zero_def cd_consts)
qed

lemma poll_loop_trace:
  "poll_loop fuel env cid status timeout t_begin s = (res, s') \<Longrightarrow>
   \<exists>evs. trace s' = trace s @ evs \<and> filter is_send evs = []"
proof (induction fuel arbitrary: s)
  case 0
  then show ?case by simp
next
  case (Suc fuel)
  from Suc.prems show ?case
  proof (cases rule: poll_loop_Suc_cases)
    case (break n st)
    then show ?thesis by simp
  next
    case (expired n st)
    then show ?thesis by simp
  next
    case (again_timed n st)
    from Suc.IH [OF again_timed(5)] show ?thesis by auto
  next
    case (again n st)
    from Suc.IH [OF again(4)] show ?thesis by auto
  qed
qed

subsection \<open>Submission\<close>

text \<open>
  C3. cdrom_exec_cmd_timed calls syscall_gdrom_send_command at least once and at most
  CD_CMD_RETRY_MAX = 10 times. It retries only while the call returns 0: when attempt k
  (counted from 0) is the first to return something else, exactly k + 1 calls are made,
  and each of the k refused attempts is followed by one syscall_gdrom_exec_server and
  one thd_pass before the next. When all 10 attempts return 0, the function returns
  CD_ERR_SYS, after the tenth tick and yield, without a single call of
  syscall_gdrom_check_command.
\<close>

theorem cdrom_exec_cmd_timed_submission:
  "n_send s < n_send (snd (cdrom_exec_cmd_timed fuel env cmd param timeout s)) \<and>
   n_send (snd (cdrom_exec_cmd_timed fuel env cmd param timeout s)) \<le> n_send s + CD_CMD_RETRY_MAX \<and>
   (\<forall>k. k < CD_CMD_RETRY_MAX \<and> (\<forall>j<k. send_command_ret env (n_send s + j) = 0) \<and>
        send_command_ret env (n_send s + k) \<noteq> 0 \<longrightarrow>
        n_send (snd (cdrom_exec_cmd_timed fuel env cmd param timeout s)) = n_send s + Suc k \<and>
        (\<exists>rest. trace (snd (cdrom_exec_cmd_timed fuel env cmd param timeout s)) =
           trace s @ E_mutex_lock # failed_attempts cmd param k
           @ E_send_command cmd param (send_command_ret env (n_send s + k)) # rest)) \<and>
   ((\<forall>j<CD_CMD_RETRY_MAX. send_command_ret env (n_send s + j) = 0) \<longrightarrow>
        fst (cdrom_exec_cmd_timed fuel env cmd param timeout s) = Some CD_ERR_SYS \<and>
        n_send (snd (cdrom_exec_cmd_timed fuel env cmd param timeout s)) = n_send s + CD_CMD_RETRY_MAX \<and>
        n_check (snd (cdrom_exec_cmd_timed fuel env cmd param timeout s)) = n_check s \<and>
        trace (snd (cdrom_exec_cmd_timed fuel env cmd param timeout s)) =
           trace s @ E_mutex_lock # failed_attempts cmd param CD_CMD_RETRY_MAX @ [E_mutex_unlock])"
proof -
  let ?run = "cdrom_exec_cmd_timed fuel env cmd param timeout s"
  have accepted: "n_send (snd ?run) = n_send s + Suc k \<and>
        (\<exists>rest. trace (snd ?run) =
           trace s @ E_mutex_lock # failed_attempts cmd param k
           @ E_send_command cmd param (send_command_ret env (n_send s + k)) # rest)"
    if k: "k < CD_CMD_RETRY_MAX" "\<forall>j<k. send_command_ret env (n_send s + j) = 0"
      "send_command_ret env (n_send s + k) \<noteq> 0" for k
  proof (cases "send_command_ret env (n_send s + k) < 0")
    case True
    from exec_submit_negative [OF k(1,2) True, of fuel cmd param timeout]
    show ?thesis by (simp add: mutex_unlock_def log_event_def after_submit_def)
  next
    case False
    with k(3) have pos: "0 < send_command_ret env (n_send s + k)" by simp
    obtain res s3 where
      p: "poll_loop fuel env (send_command_ret env (n_send s + k)) status_zero timeout
            (poll_begin env timeout s) (poll_entry env timeout (after_submit env cmd param s k))
          = (res, s3)"
      by force
    from poll_loop_frame [OF p]
    have ns: "n_send s3 = n_send s + Suc k"
      by (simp add: poll_entry_def after_submit_def timer_ms_gettime64_def log_event_def Let_def)
    from poll_loop_trace [OF p] obtain evs where
      "trace s3 = trace (poll_entry env timeout (after_submit env cmd param s k)) @ evs"
      by blast
    then have tr: "\<exists>rest. trace s3 = trace s @ E_mutex_lock # failed_attempts cmd param k
           @ E_send_command cmd param (send_command_ret env (n_send s + k)) # rest"
      by (simp add: poll_entry_def after_submit_def timer_ms_gettime64_def log_event_def Let_def)
    have "snd ?run = s3 \<or> snd ?run = mutex_unlock s3"
      using exec_polled [OF k(1,2) pos, of fuel cmd param timeout] p
      by (auto split: option.splits sum.splits)
    then show ?thesis
      using ns tr by (auto simp: mutex_unlock_def log_event_def)
  qed
  have refused: "fst ?run = Some CD_ERR_SYS \<and>
        n_send (snd ?run) = n_send s + CD_CMD_RETRY_MAX \<and>
        n_check (snd ?run) = n_check s \<and>
        trace (snd ?run) =
           trace s @ E_mutex_lock # failed_attempts cmd param CD_CMD_RETRY_MAX @ [E_mutex_unlock]"
    if "\<forall>j<CD_CMD_RETRY_MAX. send_command_ret env (n_send s + j) = 0"
    using exec_submit_failed [OF that, of fuel cmd param timeout] by simp
  have bounds: "n_send s < n_send (snd ?run) \<and> n_send (snd ?run) \<le> n_send s + CD_CMD_RETRY_MAX"
  proof (cases rule: submit_loop_cases [of env s])
    case fail
    with refused show ?thesis by (simp add: CD_CMD_RETRY_MAX_def)
  next
    case (accept k)
    with accepted [of k] show ?thesis by simp
  qed
  from accepted refused bounds show ?thesis by blast
qed

theorem cdrom_exec_cmd_timed_submission_witness:
  "fst (cdrom_exec_cmd_timed 0 env_refusing CMD_INIT PARAM_NULL 10000 s_init) = Some CD_ERR_SYS \<and>
   n_check (snd (cdrom_exec_cmd_timed 0 env_refusing CMD_INIT PARAM_NULL 10000 s_init)) = 0 \<and>
   trace (snd (cdrom_exec_cmd_timed 0 env_refusing CMD_INIT PARAM_NULL 10000 s_init)) =
     E_mutex_lock # failed_attempts CMD_INIT PARAM_NULL 10 @ [E_mutex_unlock] \<and>
   n_send (snd (cdrom_exec_cmd_timed 4 env_slow CMD_INIT PARAM_NULL 10000 s_init)) = 3"
proof -
  have z: "\<forall>j<CD_CMD_RETRY_MAX. send_command_ret env_refusing (n_send s_init + j) = 0"
    by (simp add: env_refusing_def)
  have a: "(2::nat) < CD_CMD_RETRY_MAX"
      "\<forall>j<2. send_command_ret env_slow (n_send s_init + j) = 0"
      "send_command_ret env_slow (n_send s_init + 2) \<noteq> 0"
    by (simp_all add: env_slow_def s_init_def CD_CMD_RETRY_MAX_def)
  have "fst (cdrom_exec_cmd_timed 0 env_refusing CMD_INIT PARAM_NULL 10000 s_init) = Some CD_ERR_SYS \<and>
     n_check (snd (cdrom_exec_cmd_timed 0 env_refusing CMD_INIT PARAM_NULL 10000 s_init)) = 0 \<and>
     trace (snd (cdrom_exec_cmd_timed 0 env_refusing CMD_INIT PARAM_NULL 10000 s_init)) =
       E_mutex_lock # failed_attempts CMD_INIT PARAM_NULL 10 @ [E_mutex_unlock]"
    using cdrom_exec_cmd_timed_submission [of s_init 0 env_refusing CMD_INIT PARAM_NULL 10000] z
    by (simp add: s_init_def CD_CMD_RETRY_MAX_def)
  moreover have "n_send (snd (cdrom_exec_cmd_timed 4 env_slow CMD_INIT PARAM_NULL 10000 s_init)) = 3"
    using cdrom_exec_cmd_timed_submission [of s_init 4 env_slow CMD_INIT PARAM_NULL 10000,
        THEN conjunct2, THEN conjunct2, THEN conjunct1, rule_format, of 2] a
    by (simp add: s_init_def)
  ultimately show ?thesis by simp
qed

subsection \<open>The polling loop: timeout and no timeout\<close>

lemma poll_loop_times_out:
  assumes "timeout \<noteq> 0"
    and "\<forall>m. fst (check_command_ret env (n_check s + m)) = CD_CMD_PROCESSING \<or>
             fst (check_command_ret env (n_check s + m)) = CD_CMD_BUSY"
    and "\<forall>m<j. \<not> ucast timeout \<le> gettime_ret env (n_time s + m) - t_begin"
    and "ucast timeout \<le> gettime_ret env (n_time s + j) - t_begin"
    and "j < fuel"
  shows "\<exists>s'. poll_loop fuel env cid status timeout t_begin s = (Some (Inl CD_ERR_TIMEOUT), s') \<and>
     n_check s' = n_check s + Suc j \<and> n_time s' = n_time s + Suc j \<and>
     count_aborts s' = Suc (count_aborts s) \<and>
     (\<exists>pre. trace s' = pre @ [E_abort_command cid, E_exec_server, E_dbglog])"
  using assms
proof (induction j arbitrary: fuel s)
  case 0
  from "0.prems"(5) obtain f where fuel: "fuel = Suc f" by (cases fuel) auto
  obtain n st where c: "check_command_ret env (n_check s) = (n, st)"
    by (cases "check_command_ret env (n_check s)")
  from "0.prems"(2) [rule_format, of 0] c have nt: "n = CD_CMD_PROCESSING \<or> n = CD_CMD_BUSY"
    by simp
  show ?case
    using "0.prems"(1,4) c nt unfolding fuel
    by (auto simp: env_calls Let_def count_aborts_def)
next
  case (Suc j)
  from Suc.prems(5) obtain f where fuel: "fuel = Suc f" and f: "j < f" by (cases fuel) auto
  obtain n st where c: "check_command_ret env (n_check s) = (n, st)"
    by (cases "check_command_ret env (n_check s)")
  from Suc.prems(2) [rule_format, of 0] c have nt: "n = CD_CMD_PROCESSING \<or> n = CD_CMD_BUSY"
    by simp
  from Suc.prems(3) have ne: "\<not> ucast timeout \<le> gettime_ret env (n_time s) - t_begin"
    by force
  let ?s = "s\<lparr>n_check := Suc (n_check s), n_time := Suc (n_time s),
            trace := trace s @ [E_exec_server, E_check_command cid n st,
                                E_gettime (gettime_ret env (n_time s)), E_thd_pass]\<rparr>"
  have step: "poll_loop fuel env cid status timeout t_begin s = poll_loop f env cid status timeout t_begin ?s"
    using Suc.prems(1) c nt ne unfolding fuel by (auto simp: env_calls Let_def)
  have a2: "\<forall>m. fst (check_command_ret env (n_check ?s + m)) = CD_CMD_PROCESSING \<or>
             fst (check_command_ret env (n_check ?s + m)) = CD_CMD_BUSY"
    using Suc.prems(2) [rule_format, of "Suc _"] by simp
  have a3: "\<forall>m<j. \<not> ucast timeout \<le> gettime_ret env (n_time ?s + m) - t_begin"
    using Suc.prems(3) by auto
  have a4: "ucast timeout \<le> gettime_ret env (n_time ?s + j) - t_begin"
    using Suc.prems(4) by simp
  from Suc.IH [OF Suc.prems(1) a2 a3 a4 f] show ?case
    unfolding step by (auto simp: count_aborts_def)
qed

lemma poll_loop_untimed:
  "poll_loop fuel env cid status 0 t_begin s = (res, s') \<Longrightarrow>
   (\<forall>r. res \<noteq> Some (Inl r)) \<and> count_aborts s' = count_aborts s \<and> n_time s' = n_time s"
proof (induction fuel arbitrary: s)
  case 0
  then show ?case by simp
next
  case (Suc fuel)
  from Suc.prems show ?case
  proof (cases rule: poll_loop_Suc_cases)
    case (break n st)
    then show ?thesis by (simp add: count_aborts_def)
  next
    case (expired n st)
    then show ?thesis by simp
  next
    case (again_timed n st)
    then show ?thesis by simp
  next
    case (again n st)
    from Suc.IH [OF again(4)] show ?thesis by (simp add: count_aborts_def)
  qed
qed

lemma poll_loop_unbounded:
  assumes "\<forall>m. fst (check_command_ret env (n_check s + m)) = CD_CMD_PROCESSING \<or>
             fst (check_command_ret env (n_check s + m)) = CD_CMD_BUSY"
  shows "\<exists>s'. poll_loop fuel env cid status 0 t_begin s = (None, s') \<and> n_check s' = n_check s + fuel"
  using assms
proof (induction fuel arbitrary: s)
  case 0
  then show ?case by simp
next
  case (Suc fuel)
  obtain n st where c: "check_command_ret env (n_check s) = (n, st)"
    by (cases "check_command_ret env (n_check s)")
  from Suc.prems [rule_format, of 0] c have nt: "n = CD_CMD_PROCESSING \<or> n = CD_CMD_BUSY"
    by simp
  let ?s = "s\<lparr>n_check := Suc (n_check s),
            trace := trace s @ [E_exec_server, E_check_command cid n st, E_thd_pass]\<rparr>"
  have step: "poll_loop (Suc fuel) env cid status 0 t_begin s = poll_loop fuel env cid status 0 t_begin ?s"
    using c nt by (auto simp: env_calls Let_def)
  have "\<forall>m. fst (check_command_ret env (n_check ?s + m)) = CD_CMD_PROCESSING \<or>
             fst (check_command_ret env (n_check ?s + m)) = CD_CMD_BUSY"
    using Suc.prems [rule_format, of "Suc _"] by simp
  from Suc.IH [OF this] show ?case
    unfolding step by auto
qed

lemma filter_abort_failed_attempts [simp]:
  "filter is_abort (failed_attempts cmd param k) = []"
  by (induction k) (simp_all add: failed_attempts_def)

lemma count_aborts_after_submit [simp]:
  "count_aborts (after_submit env cmd param s k) = count_aborts s"
  by (simp add: count_aborts_def after_submit_def)

lemma count_aborts_mutex_unlock [simp]:
  "count_aborts (mutex_unlock s) = count_aborts s"
  by (simp add: count_aborts_def mutex_unlock_def log_event_def)

lemma result_classifier_not_timeout:
  "result_classifier n e1 \<noteq> CD_ERR_TIMEOUT"
  by (simp add: result_classifier_def cd_consts)

lemma exec_untimed:
  "fst (cdrom_exec_cmd_timed fuel env cmd param 0 s) \<noteq> Some CD_ERR_TIMEOUT \<and>
   count_aborts (snd (cdrom_exec_cmd_timed fuel env cmd param 0 s)) = count_aborts s"
proof (cases rule: submit_loop_cases [of env s])
  case fail
  from exec_submit_failed [OF fail, of fuel cmd param 0] show ?thesis
    by (simp add: count_aborts_def cd_consts)
next
  case (accept k)
  show ?thesis
  proof (cases "send_command_ret env (n_send s + k) < 0")
    case True
    from exec_submit_negative [OF accept(1,2) True, of fuel cmd param 0] show ?thesis
      by (simp add: cd_consts)
  next
    case False
    with accept(3) have pos: "0 < send_command_ret env (n_send s + k)" by simp
    obtain res s3 where
      p: "poll_loop fuel env (send_command_ret env (n_send s + k)) status_zero 0
            (poll_begin env 0 s) (after_submit env cmd param s k) = (res, s3)"
      by force
    from poll_loop_untimed [OF p] exec_polled [OF accept(1,2) pos, of fuel cmd param 0] p
    show ?thesis
      by (auto simp: poll_entry_def result_classifier_not_timeout
            split: option.splits sum.splits)
  qed
qed

subsection \<open>Timeout\<close>

text \<open>
  C2. Take a call of cdrom_exec_cmd_timed whose command is accepted (at attempt k) and
  whose status never becomes terminal. With a timeout budget T other than 0, let j be
  the first clock reading after begin at which the elapsed time has reached T: the call
  returns CD_ERR_TIMEOUT in the j-th tick-and-check cycle, that is within one cycle of
  the last reading still below T; it has then issued exactly one
  syscall_gdrom_abort_command, for the request, followed by one more
  syscall_gdrom_exec_server. With timeout 0 no call, whatever the drive answers, issues
  an abort or returns CD_ERR_TIMEOUT, and while the status stays non-terminal the call
  keeps polling: with fuel for n polls it makes n polls and has not returned.
\<close>

theorem cdrom_exec_cmd_timed_timeout:
  "(timeout \<noteq> 0 \<and>
    k < CD_CMD_RETRY_MAX \<and> (\<forall>i<k. send_command_ret env (n_send s + i) = 0) \<and>
    0 < send_command_ret env (n_send s + k) \<and>
    (\<forall>m. fst (check_command_ret env (n_check s + m)) = CD_CMD_PROCESSING \<or>
         fst (check_command_ret env (n_check s + m)) = CD_CMD_BUSY) \<and>
    0 < j \<and> (\<forall>m. 0 < m \<and> m < j \<longrightarrow> elapsed env s m < ucast timeout) \<and>
    ucast timeout \<le> elapsed env s j \<and> j \<le> fuel
    \<longrightarrow> fst (cdrom_exec_cmd_timed fuel env cmd param timeout s) = Some CD_ERR_TIMEOUT \<and>
        n_check (snd (cdrom_exec_cmd_timed fuel env cmd param timeout s)) = n_check s + j \<and>
        n_time (snd (cdrom_exec_cmd_timed fuel env cmd param timeout s)) = n_time s + Suc j \<and>
        count_aborts (snd (cdrom_exec_cmd_timed fuel env cmd param timeout s)) = Suc (count_aborts s) \<and>
        (\<exists>pre. trace (snd (cdrom_exec_cmd_timed fuel env cmd param timeout s)) =
           pre @ [E_abort_command (send_command_ret env (n_send s + k)), E_exec_server,
                  E_dbglog, E_mutex_unlock])) \<and>
   fst (cdrom_exec_cmd_timed fuel env cmd param 0 s) \<noteq> Some CD_ERR_TIMEOUT \<and>
   count_aborts (snd (cdrom_exec_cmd_timed fuel env cmd param 0 s)) = count_aborts s \<and>
   (k < CD_CMD_RETRY_MAX \<and> (\<forall>i<k. send_command_ret env (n_send s + i) = 0) \<and>
    0 < send_command_ret env (n_send s + k) \<and>
    (\<forall>m. fst (check_command_ret env (n_check s + m)) = CD_CMD_PROCESSING \<or>
         fst (check_command_ret env (n_check s + m)) = CD_CMD_BUSY)
    \<longrightarrow> fst (cdrom_exec_cmd_timed fuel env cmd param 0 s) = None \<and>
        n_check (snd (cdrom_exec_cmd_timed fuel env cmd param 0 s)) = n_check s + fuel)"
proof (intro conjI impI)
  show "fst (cdrom_exec_cmd_timed fuel env cmd param 0 s) \<noteq> Some CD_ERR_TIMEOUT"
    and "count_aborts (snd (cdrom_exec_cmd_timed fuel env cmd param 0 s)) = count_aborts s"
    using exec_untimed [of fuel env cmd param s] by simp_all
next
  assume h: "k < CD_CMD_RETRY_MAX \<and> (\<forall>i<k. send_command_ret env (n_send s + i) = 0) \<and>
    0 < send_command_ret env (n_send s + k) \<and>
    (\<forall>m. fst (check_command_ret env (n_check s + m)) = CD_CMD_PROCESSING \<or>
         fst (check_command_ret env (n_check s + m)) = CD_CMD_BUSY)"
  then have sub: "k < CD_CMD_RETRY_MAX" "\<forall>i<k. send_command_ret env (n_send s + i) = 0"
      "0 < send_command_ret env (n_send s + k)"
    by simp_all
  have nc: "n_check (after_submit env cmd param s k) = n_check s"
    by (simp add: after_submit_def)
  from h have "\<forall>m. fst (check_command_ret env (n_check (after_submit env cmd param s k) + m)) = CD_CMD_PROCESSING \<or>
         fst (check_command_ret env (n_check (after_submit env cmd param s k) + m)) = CD_CMD_BUSY"
    unfolding nc by simp
  from poll_loop_unbounded [OF this, of fuel "send_command_ret env (n_send s + k)" status_zero "poll_begin env 0 s"]
  obtain s3 where p: "poll_loop fuel env (send_command_ret env (n_send s + k)) status_zero 0
      (poll_begin env 0 s) (after_submit env cmd param s k) = (None, s3)"
    and n3: "n_check s3 = n_check s + fuel"
    unfolding nc by blast
  from exec_polled [OF sub, of fuel cmd param 0] p n3
  show "fst (cdrom_exec_cmd_timed fuel env cmd param 0 s) = None"
    and "n_check (snd (cdrom_exec_cmd_timed fuel env cmd param 0 s)) = n_check s + fuel"
    by (simp_all add: poll_entry_def)
next
  assume h: "timeout \<noteq> 0 \<and>
    k < CD_CMD_RETRY_MAX \<and> (\<forall>i<k. send_command_ret env (n_send s + i) = 0) \<and>
    0 < send_command_ret env (n_send s + k) \<and>
    (\<forall>m. fst (check_command_ret env (n_check s + m)) = CD_CMD_PROCESSING \<or>
         fst (check_command_ret env (n_check s + m)) = CD_CMD_BUSY) \<and>
    0 < j \<and> (\<forall>m. 0 < m \<and> m < j \<longrightarrow> elapsed env s m < ucast timeout) \<and>
    ucast timeout \<le> elapsed env s j \<and> j \<le> fuel"
  then have t: "timeout \<noteq> 0" and sub: "k < CD_CMD_RETRY_MAX"
      "\<forall>i<k. send_command_ret env (n_send s + i) = 0" "0 < send_command_ret env (n_send s + k)"
    by simp_all
  let ?e = "poll_entry env timeout (after_submit env cmd param s k)"
  let ?cid = "send_command_ret env (n_send s + k)"
  from h obtain j' where j: "j = Suc j'" by (cases j) auto
  have nc: "n_check ?e = n_check s" and nt: "n_time ?e = Suc (n_time s)"
    and ca: "count_aborts ?e = count_aborts s"
    using t by (simp_all add: poll_entry_def after_submit_def timer_ms_gettime64_def
         log_event_def Let_def count_aborts_def)
  have b: "poll_begin env timeout s = gettime_ret env (n_time s)"
    using t by (simp add: poll_begin_def)
  have a2: "\<forall>m. fst (check_command_ret env (n_check ?e + m)) = CD_CMD_PROCESSING \<or>
         fst (check_command_ret env (n_check ?e + m)) = CD_CMD_BUSY"
    using h unfolding nc by simp
  have a3: "\<forall>m<j'. \<not> ucast timeout \<le> gettime_ret env (n_time ?e + m) - poll_begin env timeout s"
  proof (intro allI impI)
    fix m assume "m < j'"
    with h j have "elapsed env s (Suc m) < ucast timeout" by simp
    then show "\<not> ucast timeout \<le> gettime_ret env (n_time ?e + m) - poll_begin env timeout s"
      unfolding nt b by (simp add: elapsed_def not_le)
  qed
  have a4: "ucast timeout \<le> gettime_ret env (n_time ?e + j') - poll_begin env timeout s"
    using h j unfolding nt b by (simp add: elapsed_def)
  have a5: "j' < fuel" using h j by simp
  from poll_loop_times_out [OF t a2 a3 a4 a5, of ?cid status_zero]
  obtain s3 pre where p: "poll_loop fuel env ?cid status_zero timeout (poll_begin env timeout s) ?e
        = (Some (Inl CD_ERR_TIMEOUT), s3)"
    and r: "n_check s3 = n_check s + j" "n_time s3 = n_time s + Suc j"
      "count_aborts s3 = Suc (count_aborts s)"
      "trace s3 = pre @ [E_abort_command ?cid, E_exec_server, E_dbglog]"
    unfolding nc nt ca j by auto
  have run: "cdrom_exec_cmd_timed fuel env cmd param timeout s = (Some CD_ERR_TIMEOUT, mutex_unlock s3)"
    using exec_polled [OF sub, of fuel cmd param timeout] p by simp
  show "fst (cdrom_exec_cmd_timed fuel env cmd param timeout s) = Some CD_ERR_TIMEOUT"
    and "n_check (snd (cdrom_exec_cmd_timed fuel env cmd param timeout s)) = n_check s + j"
    and "n_time (snd (cdrom_exec_cmd_timed fuel env cmd param timeout s)) = n_time s + Suc j"
    and "count_aborts (snd (cdrom_exec_cmd_timed fuel env cmd param timeout s)) = Suc (count_aborts s)"
    and "\<exists>pre. trace (snd (cdrom_exec_cmd_timed fuel env cmd param timeout s)) =
           pre @ [E_abort_command (send_command_ret env (n_send s + k)), E_exec_server,
                  E_dbglog, E_mutex_unlock]"
    unfolding run using r by (simp_all add: mutex_unlock_def log_event_def count_aborts_def)
qed

theorem cdrom_exec_cmd_timed_timeout_witness:
  "fst (cdrom_exec_cmd_timed 5 env_stuck CMD_INIT PARAM_NULL 25 s_init) = Some CD_ERR_TIMEOUT \<and>
   n_check (snd (cdrom_exec_cmd_timed 5 env_stuck CMD_INIT PARAM_NULL 25 s_init)) = 3 \<and>
   count_aborts (snd (cdrom_exec_cmd_timed 5 env_stuck CMD_INIT PARAM_NULL 25 s_init)) = 1 \<and>
   fst (cdrom_exec_cmd_timed 5 env_stuck CMD_INIT PARAM_NULL 0 s_init) = None \<and>
   n_check (snd (cdrom_exec_cmd_timed 5 env_stuck CMD_INIT PARAM_NULL 0 s_init)) = 5"
proof -
  have sub: "(0::nat) < CD_CMD_RETRY_MAX \<and> (\<forall>i<0. send_command_ret env_stuck (n_send s_init + i) = 0) \<and>
    0 < send_command_ret env_stuck (n_send s_init + 0)"
    by (simp add: env_stuck_def CD_CMD_RETRY_MAX_def)
  have busy: "\<forall>m. fst (check_command_ret env_stuck (n_check s_init + m)) = CD_CMD_PROCESSING \<or>
         fst (check_command_ret env_stuck (n_check s_init + m)) = CD_CMD_BUSY"
    by (simp add: env_stuck_def)
  have el: "elapsed env_stuck s_init m = 10 * of_nat m" for m
    by (simp add: elapsed_def env_stuck_def env_slow_def s_init_def)
  have before: "\<forall>m. 0 < m \<and> m < 3 \<longrightarrow> elapsed env_stuck s_init m < ucast (25 :: u32)"
  proof (intro allI impI)
    fix m :: nat assume "0 < m \<and> m < 3"
    then have "m = 1 \<or> m = 2" by auto
    then show "elapsed env_stuck s_init m < ucast (25 :: u32)"
      unfolding el by auto
  qed
  have at: "ucast (25 :: u32) \<le> elapsed env_stuck s_init 3"
    unfolding el by simp
  note T = cdrom_exec_cmd_timed_timeout [where timeout = 25 and k = 0 and env = env_stuck
      and s = s_init and j = 3 and fuel = 5 and cmd = CMD_INIT and param = PARAM_NULL]
  have ca: "count_aborts s_init = 0" and nc: "n_check s_init = 0"
    by (simp_all add: count_aborts_def s_init_def)
  from T sub busy before at ca nc show ?thesis
    by simp
qed

subsection \<open>Sector-format negotiation\<close>

text \<open>
  What cdrom_change_datatype does for all arguments: one set-mode request with RW = 0,
  whose result it returns unchanged. A default sector_part becomes
  CD_READ_WHOLE_SECTOR for sector_size 2352 and CD_READ_DATA_AREA otherwise, and a
  sector_size of -1 becomes 2048. A default track_type becomes CD_TRACK_TYPE_ANY for
  sector_size 2352; otherwise the drive is asked, but the answer is read from the
  driver's own block check_params, passed by value and still zero, so the track type
  becomes CD_TRACK_TYPE_MODE1 whatever the drive reports.
\<close>

lemma change_datatype_request:
  "fst (cdrom_change_datatype env sector_part track_type sector_size s) =
     sector_mode_ret env (n_mode s) \<and>
   trace (snd (cdrom_change_datatype env sector_part track_type sector_size s)) =
     trace s @ E_mutex_lock #
       (if sector_size \<noteq> 2352 \<and> track_type = CD_TRACK_TYPE_DEFAULT
        then [E_check_drive (fst (check_drive_ret env (n_drive s)))
                            (snd (check_drive_ret env (n_drive s)))]
        else []) @
       [E_sector_mode
          \<lparr>mode_RW = 0,
           mode_sector_part =
             (if sector_part = CD_READ_DEFAULT
              then (if sector_size = 2352 then CD_READ_WHOLE_SECTOR else CD_READ_DATA_AREA)
              else sector_part),
           mode_track_type =
             (if track_type = CD_TRACK_TYPE_DEFAULT
              then (if sector_size = 2352 then CD_TRACK_TYPE_ANY else CD_TRACK_TYPE_MODE1)
              else track_type),
           mode_sector_size = (if sector_size = -1 then 2048 else sector_size)\<rparr>
          (sector_mode_ret env (n_mode s)),
        E_mutex_unlock]"
  by (cases "check_drive_ret env (n_drive s)")
     (simp add: cdrom_change_datatype_def env_calls Let_def drive_params_zero_def CD_CDROM_XA_def)

text \<open>
  C5. The claim: with sector_size other than 2352, a default track_type resolves to
  CD_TRACK_TYPE_MODE2_FORM1 when the drive reports a CD-ROM XA. On the code: for the
  call cdrom_change_datatype(CD_READ_DEFAULT, CD_TRACK_TYPE_DEFAULT, -1) with a drive
  that reports CD_CDROM_XA, the set-mode request carries (CD_READ_DATA_AREA,
  CD_TRACK_TYPE_MODE1, 2048). The sector part, the sector size, RW = 0 and the
  returned value are as the claim says; the track type is not.
\<close>

theorem cdrom_change_datatype_xa_is_mode1:
  "check_drive_ret env_slow 0 = (0, \<lparr>drv_status = 1, drv_disc_type = CD_CDROM_XA\<rparr>) \<and>
   cdrom_change_datatype env_slow CD_READ_DEFAULT CD_TRACK_TYPE_DEFAULT (-1) s_init =
     (0, s_init\<lparr>n_drive := 1, n_mode := 1,
          trace := [E_mutex_lock,
                    E_check_drive 0 \<lparr>drv_status = 1, drv_disc_type = CD_CDROM_XA\<rparr>,
                    E_sector_mode \<lparr>mode_RW = 0, mode_sector_part = CD_READ_DATA_AREA,
                      mode_track_type = CD_TRACK_TYPE_MODE1, mode_sector_size = 2048\<rparr> 0,
                    E_mutex_unlock]\<rparr>) \<and>
   CD_TRACK_TYPE_MODE1 \<noteq> CD_TRACK_TYPE_MODE2_FORM1"
  by (simp add: cdrom_change_datatype_def env_calls Let_def env_slow_def s_init_def
        drive_params_zero_def cd_consts)

text \<open>
  C7. Two successive calls of
  cdrom_change_datatype(CD_READ_WHOLE_SECTOR, CD_TRACK_TYPE_ANY, 2352) send the same
  set-mode request (whole sector, any track type, 2352 bytes) both times, whatever the
  outside world answers in either call; the drive's state is not even asked for.
\<close>

theorem cdrom_change_datatype_idempotent:
  "trace (snd (cdrom_change_datatype env2 CD_READ_WHOLE_SECTOR CD_TRACK_TYPE_ANY 2352
           (snd (cdrom_change_datatype env1 CD_READ_WHOLE_SECTOR CD_TRACK_TYPE_ANY 2352 s)))) =
     trace s @
     [E_mutex_lock,
      E_sector_mode \<lparr>mode_RW = 0, mode_sector_part = CD_READ_WHOLE_SECTOR,
        mode_track_type = CD_TRACK_TYPE_ANY, mode_sector_size = 2352\<rparr>
        (sector_mode_ret env1 (n_mode s)),
      E_mutex_unlock,
      E_mutex_lock,
      E_sector_mode \<lparr>mode_RW = 0, mode_sector_part = CD_READ_WHOLE_SECTOR,
        mode_track_type = CD_TRACK_TYPE_ANY, mode_sector_size = 2352\<rparr>
        (sector_mode_ret env2 (Suc (n_mode s))),
      E_mutex_unlock] \<and>
   n_drive (snd (cdrom_change_datatype env2 CD_READ_WHOLE_SECTOR CD_TRACK_TYPE_ANY 2352
           (snd (cdrom_change_datatype env1 CD_READ_WHOLE_SECTOR CD_TRACK_TYPE_ANY 2352 s)))) =
     n_drive s"
  by (simp add: cdrom_change_datatype_def env_calls Let_def cd_consts)

subsection \<open>The status query\<close>

text \<open>
  C9. When the gate is already held, cdrom_get_status returns -1 at once (it needs no
  fuel, so it enters no loop): the only call it makes is the failed non-blocking
  acquire, syscall_gdrom_check_drive is not called, and the cells behind status and
  disc_type are left as they were.
\<close>

theorem cdrom_get_status_gate_held:
  "gate_held s \<Longrightarrow>
   cdrom_get_status fuel env status disc_type s =
     (Some (-1, status, disc_type), s\<lparr>trace := trace s @ [E_mutex_lock_irqsafe (-1)]\<rparr>)"
  by (simp add: cdrom_get_status_def mutex_lock_irqsafe_def log_event_def)

theorem cdrom_get_status_gate_held_witness:
  "cdrom_get_status 0 env_slow (Some 5) (Some 9) (s_init\<lparr>gate_held := True\<rparr>) =
     (Some (-1, Some 5, Some 9),
      s_init\<lparr>gate_held := True, trace := [E_mutex_lock_irqsafe (-1)]\<rparr>)"
proof -
  have "gate_held (s_init\<lparr>gate_held := True\<rparr>)" by simp
  from cdrom_get_status_gate_held [OF this, of 0 env_slow "Some 5" "Some 9"]
  show ?thesis by (simp add: s_init_def)
qed

subsection \<open>What a call submits\<close>

lemma filter_send_failed_attempts:
  "filter is_send (failed_attempts cmd param k) = replicate k (E_send_command cmd param 0)"
  by (induction k) (simp_all add: failed_attempts_def)

lemma refused_sends:
  "\<forall>j<k. f j = 0 \<Longrightarrow>
   map (\<lambda>i. E_send_command cmd param (f i)) [0..<k] = replicate k (E_send_command cmd param 0)"
  by (induction k) (simp_all add: replicate_append_same)

lemma exec_sends:
  "filter is_send (trace (snd (cdrom_exec_cmd_timed fuel env cmd param timeout s))) =
     filter is_send (trace s) @
     map (\<lambda>i. E_send_command cmd param (send_command_ret env (n_send s + i)))
       [0..<n_send (snd (cdrom_exec_cmd_timed fuel env cmd param timeout s)) - n_send s]"
proof (cases rule: submit_loop_cases [of env s])
  case fail
  from exec_submit_failed [OF fail, of fuel cmd param timeout] refused_sends [OF fail]
  show ?thesis
    by (simp add: filter_send_failed_attempts)
next
  case (accept k)
  let ?cid = "send_command_ret env (n_send s + k)"
  have sub: "filter is_send (trace (after_submit env cmd param s k)) =
      filter is_send (trace s) @
      map (\<lambda>i. E_send_command cmd param (send_command_ret env (n_send s + i))) [0..<Suc k]"
    using refused_sends [OF accept(2)]
    by (simp add: after_submit_def filter_send_failed_attempts)
  have ns: "n_send (after_submit env cmd param s k) = n_send s + Suc k"
    by (simp add: after_submit_def)
  show ?thesis
  proof (cases "?cid < 0")
    case True
    from exec_submit_negative [OF accept(1,2) True, of fuel cmd param timeout] sub ns
    show ?thesis by (simp add: mutex_unlock_def log_event_def)
  next
    case False
    with accept(3) have pos: "0 < ?cid" by simp
    let ?e = "poll_entry env timeout (after_submit env cmd param s k)"
    have e: "filter is_send (trace ?e) = filter is_send (trace (after_submit env cmd param s k))"
        "n_send ?e = n_send s + Suc k"
      using ns by (simp_all add: poll_entry_def timer_ms_gettime64_def log_event_def Let_def)
    obtain res s3 where
      p: "poll_loop fuel env ?cid status_zero timeout (poll_begin env timeout s) ?e = (res, s3)"
      by force
    from poll_loop_trace [OF p] poll_loop_frame [OF p] e sub
    have s3: "filter is_send (trace s3) = filter is_send (trace s) @
        map (\<lambda>i. E_send_command cmd param (send_command_ret env (n_send s + i))) [0..<Suc k]"
        "n_send s3 = n_send s + Suc k"
      by auto
    have "snd (cdrom_exec_cmd_timed fuel env cmd param timeout s) = s3 \<or>
          snd (cdrom_exec_cmd_timed fuel env cmd param timeout s) = mutex_unlock s3"
      using exec_polled [OF accept(1,2) pos, of fuel cmd param timeout] p
      by (auto split: option.splits sum.splits)
    then show ?thesis
      using s3 by (auto simp: mutex_unlock_def log_event_def)
  qed
qed

lemma exec_sends_some:
  "n_send s < n_send (snd (cdrom_exec_cmd_timed fuel env cmd param timeout s))"
proof (cases rule: submit_loop_cases [of env s])
  case fail
  from exec_submit_failed [OF fail, of fuel cmd param timeout]
  show ?thesis by (simp add: CD_CMD_RETRY_MAX_def)
next
  case (accept k)
  show ?thesis
  proof (cases "send_command_ret env (n_send s + k) < 0")
    case True
    from exec_submit_negative [OF accept(1,2) True, of fuel cmd param timeout]
    show ?thesis by (simp add: mutex_unlock_def log_event_def after_submit_def)
  next
    case False
    with accept(3) have pos: "0 < send_command_ret env (n_send s + k)" by simp
    obtain res s3 where
      p: "poll_loop fuel env (send_command_ret env (n_send s + k)) status_zero timeout
            (poll_begin env timeout s) (poll_entry env timeout (after_submit env cmd param s k))
          = (res, s3)"
      by force
    from poll_loop_frame [OF p]
    have ns: "n_send s3 = n_send s + Suc k"
      by (simp add: poll_entry_def after_submit_def timer_ms_gettime64_def log_event_def Let_def)
    have "snd (cdrom_exec_cmd_timed fuel env cmd param timeout s) = s3 \<or>
          snd (cdrom_exec_cmd_timed fuel env cmd param timeout s) = mutex_unlock s3"
      using exec_polled [OF accept(1,2) pos, of fuel cmd param timeout] p
      by (auto split: option.splits sum.splits)
    then show ?thesis
      using ns by (auto simp: mutex_unlock_def log_event_def)
  qed
qed

subsection \<open>CDDA playback\<close>

text \<open>
  C10. With mode CDDA_TRACKS or CDDA_SECTORS, every submission cdrom_cdda_play makes (and
  it makes at least one) is CMD_PLAY respectively CMD_PLAY2 with a parameter block that
  holds start and end as given and min(repeat, 15) as the repeat count: a repeat above
  15 is clamped, not rejected.
\<close>

theorem cdrom_cdda_play_clamps_repeat:
  "mode = CDDA_TRACKS \<or> mode = CDDA_SECTORS \<Longrightarrow>
   n_send s < n_send (snd (cdrom_cdda_play fuel env start finish repeat mode s)) \<and>
   filter is_send (trace (snd (cdrom_cdda_play fuel env start finish repeat mode s))) =
     filter is_send (trace s) @
     map (\<lambda>i. E_send_command (if mode = CDDA_TRACKS then CMD_PLAY else CMD_PLAY2)
                (PARAM_PLAY \<lparr>play_start = start, play_end = finish,
                             play_repeat = min repeat 15\<rparr>)
                (send_command_ret env (n_send s + i)))
       [0..<n_send (snd (cdrom_cdda_play fuel env start finish repeat mode s)) - n_send s]"
proof -
  assume m: "mode = CDDA_TRACKS \<or> mode = CDDA_SECTORS"
  have r: "(if repeat > 15 then 15 else repeat) = min repeat 15"
    by (auto simp: min_def)
  let ?cmd = "if mode = CDDA_TRACKS then CMD_PLAY else CMD_PLAY2"
  let ?p = "PARAM_PLAY \<lparr>play_start = start, play_end = finish, play_repeat = min repeat 15\<rparr>"
  have run: "cdrom_cdda_play fuel env start finish repeat mode s =
      cdrom_exec_cmd_timed fuel env ?cmd ?p 0 s"
    using m unfolding cdrom_cdda_play_def cdrom_exec_cmd_def Let_def r
    by (auto simp: cd_consts)
  show ?thesis
    unfolding run
    using exec_sends [of fuel env ?cmd ?p 0 s] exec_sends_some [of s fuel env ?cmd ?p 0]
    by blast
qed

theorem cdrom_cdda_play_clamps_repeat_witness:
  "filter is_send (trace (snd (cdrom_cdda_play 4 env_slow 1 2 100 CDDA_TRACKS s_init))) =
     [E_send_command CMD_PLAY (PARAM_PLAY \<lparr>play_start = 1, play_end = 2, play_repeat = 15\<rparr>) 0,
      E_send_command CMD_PLAY (PARAM_PLAY \<lparr>play_start = 1, play_end = 2, play_repeat = 15\<rparr>) 0,
      E_send_command CMD_PLAY (PARAM_PLAY \<lparr>play_start = 1, play_end = 2, play_repeat = 15\<rparr>) 7]"
proof -
  have n: "n_send (snd (cdrom_cdda_play 4 env_slow 1 2 100 CDDA_TRACKS s_init)) = 3"
    by code_simp
  have m: "CDDA_TRACKS = CDDA_TRACKS \<or> CDDA_TRACKS = CDDA_SECTORS" by simp
  have u: "[0..<3] = [0, 1, 2 :: nat]"
    by (simp add: numeral_3_eq_3)
  have c: "min (100 :: u32) 15 = 15" by simp
  from cdrom_cdda_play_clamps_repeat [OF m, of s_init 4 env_slow 1 2 100]
  show ?thesis
    unfolding n c by (simp add: s_init_def env_slow_def u)
qed

subsection \<open>The gate around one call\<close>

text \<open>
  What one caller alone does with the gate: a call of cdrom_exec_cmd_timed that returns
  has taken the gate before its first submission and released it as its last step, on
  every path, and has not touched it in between.
\<close>

lemma gate_failed_attempts:
  "E_mutex_lock \<notin> set (failed_attempts cmd param k) \<and>
   E_mutex_unlock \<notin> set (failed_attempts cmd param k)"
  by (induction k) (simp_all add: failed_attempts_def)

lemma poll_loop_gate:
  "poll_loop fuel env cid status timeout t_begin s = (res, s') \<Longrightarrow>
   \<exists>evs. trace s' = trace s @ evs \<and> E_mutex_lock \<notin> set evs \<and> E_mutex_unlock \<notin> set evs"
proof (induction fuel arbitrary: s)
  case 0
  then show ?case by simp
next
  case (Suc fuel)
  from Suc.prems show ?case
  proof (cases rule: poll_loop_Suc_cases)
    case (break n st)
    then show ?thesis by simp
  next
    case (expired n st)
    then show ?thesis by simp
  next
    case (again_timed n st)
    from Suc.IH [OF again_timed(5)] show ?thesis by auto
  next
    case (again n st)
    from Suc.IH [OF again(4)] show ?thesis by auto
  qed
qed

lemma exec_gate_scoped:
  assumes "fst (cdrom_exec_cmd_timed fuel env cmd param timeout s) = Some r"
  shows "\<not> gate_held (snd (cdrom_exec_cmd_timed fuel env cmd param timeout s)) \<and>
     (\<exists>mid. trace (snd (cdrom_exec_cmd_timed fuel env cmd param timeout s)) =
              trace s @ E_mutex_lock # mid @ [E_mutex_unlock] \<and>
            E_mutex_lock \<notin> set mid \<and> E_mutex_unlock \<notin> set mid)"
proof (cases rule: submit_loop_cases [of env s])
  case fail
  from exec_submit_failed [OF fail, of fuel cmd param timeout] gate_failed_attempts
  show ?thesis by simp
next
  case (accept k)
  let ?cid = "send_command_ret env (n_send s + k)"
  show ?thesis
  proof (cases "?cid < 0")
    case True
    have "trace (mutex_unlock (after_submit env cmd param s k)) =
        trace s @ E_mutex_lock # (failed_attempts cmd param k @ [E_send_command cmd param ?cid])
        @ [E_mutex_unlock]"
      by (simp add: mutex_unlock_def log_event_def after_submit_def)
    with exec_submit_negative [OF accept(1,2) True, of fuel cmd param timeout]
      gate_failed_attempts [of cmd param k]
    show ?thesis
      by (auto simp: mutex_unlock_def log_event_def)
  next
    case False
    with accept(3) have pos: "0 < ?cid" by simp
    let ?e = "poll_entry env timeout (after_submit env cmd param s k)"
    obtain res s3 where
      p: "poll_loop fuel env ?cid status_zero timeout (poll_begin env timeout s) ?e = (res, s3)"
      by force
    from poll_loop_gate [OF p] obtain evs where
      evs: "trace s3 = trace ?e @ evs" "E_mutex_lock \<notin> set evs" "E_mutex_unlock \<notin> set evs"
      by blast
    obtain pre where pre: "trace ?e = trace s @ E_mutex_lock # pre"
        "E_mutex_lock \<notin> set pre" "E_mutex_unlock \<notin> set pre"
      using gate_failed_attempts [of cmd param k]
      by (cases "timeout = 0")
         (simp_all add: poll_entry_def after_submit_def timer_ms_gettime64_def log_event_def Let_def)
    have run: "snd (cdrom_exec_cmd_timed fuel env cmd param timeout s) = mutex_unlock s3"
      using exec_polled [OF accept(1,2) pos, of fuel cmd param timeout] p assms
      by (auto split: option.splits sum.splits)
    have "trace (mutex_unlock s3) = trace s @ E_mutex_lock # (pre @ evs) @ [E_mutex_unlock]"
      using evs(1) pre(1) by (simp add: mutex_unlock_def log_event_def)
    moreover have "E_mutex_lock \<notin> set (pre @ evs)" "E_mutex_unlock \<notin> set (pre @ evs)"
      using evs pre by simp_all
    ultimately show ?thesis
      unfolding run by (auto simp: mutex_unlock_def log_event_def)
  qed
qed

subsection \<open>Reinitialisation\<close>

text \<open>
  No call of cdrom_exec_cmd_timed returns CD_ERR_DISC_CHG or CD_ERR_NO_DISC: the
  classification reads the primary error code of the driver's own status block, which
  is the zero of its initialiser.
\<close>

lemma exec_never_disc_chg:
  "fst (cdrom_exec_cmd_timed fuel env cmd param timeout s) \<noteq> Some CD_ERR_DISC_CHG \<and>
   fst (cdrom_exec_cmd_timed fuel env cmd param timeout s) \<noteq> Some CD_ERR_NO_DISC"
proof (cases rule: submit_loop_cases [of env s])
  case fail
  from exec_submit_failed [OF fail, of fuel cmd param timeout]
  show ?thesis by (simp add: cd_consts)
next
  case (accept k)
  show ?thesis
  proof (cases "send_command_ret env (n_send s + k) < 0")
    case True
    from exec_submit_negative [OF accept(1,2) True, of fuel cmd param timeout]
    show ?thesis by (simp add: cd_consts)
  next
    case False
    with accept(3) have pos: "0 < send_command_ret env (n_send s + k)" by simp
    obtain res s3 where
      p: "poll_loop fuel env (send_command_ret env (n_send s + k)) status_zero timeout
            (poll_begin env timeout s) (poll_entry env timeout (after_submit env cmd param s k))
          = (res, s3)"
      by force
    have c: "result_classifier n (chk_err1 status_zero) \<noteq> CD_ERR_DISC_CHG \<and>
             result_classifier n (chk_err1 status_zero) \<noteq> CD_ERR_NO_DISC" for n
      by (simp add: result_classifier_def status_zero_def cd_consts)
    show ?thesis
    proof (cases res)
      case None
      with exec_polled [OF accept(1,2) pos, of fuel cmd param timeout] p
      show ?thesis by simp
    next
      case (Some v)
      show ?thesis
      proof (cases v)
        case (Inl r)
        from poll_loop_result [OF p [unfolded Some]] Inl have "r = CD_ERR_TIMEOUT" by simp
        with exec_polled [OF accept(1,2) pos, of fuel cmd param timeout] p Some Inl
        show ?thesis by (simp add: cd_consts)
      next
        case (Inr n)
        with exec_polled [OF accept(1,2) pos, of fuel cmd param timeout] p Some c [of n]
        show ?thesis by simp
      qed
    qed
  qed
qed

lemma reinit_loop_single_cycle:
  "reinit_loop (Suc cycles) (cdrom_exec_cmd_timed fuel env CMD_INIT PARAM_NULL 10000) s =
     cdrom_exec_cmd_timed fuel env CMD_INIT PARAM_NULL 10000 s"
proof -
  obtain x s1 where e: "cdrom_exec_cmd_timed fuel env CMD_INIT PARAM_NULL 10000 s = (x, s1)"
    by force
  from exec_never_disc_chg [of fuel env CMD_INIT PARAM_NULL 10000 s] e
  have "x \<noteq> Some CD_ERR_DISC_CHG" by simp
  then show ?thesis
    by (cases x) (simp_all add: e)
qed

text \<open>
  Hence the do-while of cdrom_reinit_ex runs its body once: with at least one cycle
  allowed, cdrom_reinit_ex is one cdrom_exec_cmd_timed(CMD_INIT, NULL, 10000), whose
  outcome is returned when it is CD_ERR_SYS or CD_ERR_TIMEOUT and is followed by
  cdrom_change_datatype(sector_part, track_type, sector_size) otherwise.
\<close>

lemma cdrom_reinit_ex_single_cycle:
  "cdrom_reinit_ex (Suc cycles) fuel env sector_part track_type sector_size s =
     (case cdrom_exec_cmd_timed fuel env CMD_INIT PARAM_NULL 10000 s of
        (None, s1) \<Rightarrow> (None, s1)
      | (Some r, s1) \<Rightarrow>
          if r = CD_ERR_SYS \<or> r = CD_ERR_TIMEOUT then (Some r, s1)
          else (let (r', s2) = cdrom_change_datatype env sector_part track_type sector_size s1
                in (Some r', s2)))"
proof -
  obtain x s1 where e: "cdrom_exec_cmd_timed fuel env CMD_INIT PARAM_NULL 10000 s = (x, s1)"
    by force
  from exec_never_disc_chg [of fuel env CMD_INIT PARAM_NULL 10000 s] e
  have "x \<noteq> Some CD_ERR_NO_DISC" by simp
  then show ?thesis
    unfolding cdrom_reinit_ex_def reinit_ex_flow_def reinit_loop_single_cycle e
    by (cases x) auto
qed

text \<open>
  C4. The claim: cdrom_reinit_ex repeats the cycle cdrom_exec_cmd_timed(CMD_INIT, NULL,
  10000) as long as its outcome classifies as disc-changed, so that the outcomes
  disc-changed, disc-changed, ok take exactly three cycles and end in the negotiation
  of cdrom_change_datatype. On the code: with a drive whose first two INIT commands
  fail with the firmware's primary error code 6, which the classification maps to
  CD_ERR_DISC_CHG, and whose third completes, cdrom_reinit_ex(CD_READ_DEFAULT,
  CD_TRACK_TYPE_DEFAULT, -1) runs one cycle only (one submission, one status check),
  returns CD_ERR_SYS, does not repeat the cycle and does not call
  cdrom_change_datatype. Five cycles and four polls per cycle are allowed, so the run
  is cut short by neither bound. The cause is the one of C1: the status block goes to
  syscall_gdrom_check_command by value, and the driver classifies its own zeroed copy.
\<close>

theorem cdrom_reinit_ex_disc_change_is_sys:
  "check_command_ret env_disc_changed 0 = (CD_CMD_FAILED, status_zero\<lparr>chk_err1 := 6\<rparr>) \<and>
   result_classifier CD_CMD_FAILED 6 = CD_ERR_DISC_CHG \<and>
   cdrom_reinit_ex 5 4 env_disc_changed CD_READ_DEFAULT CD_TRACK_TYPE_DEFAULT (-1) s_init =
     (Some CD_ERR_SYS,
      s_init\<lparr>n_send := 1, n_check := 1, n_time := 1,
        trace := [E_mutex_lock, E_send_command CMD_INIT PARAM_NULL 7, E_gettime 1000,
                  E_exec_server,
                  E_check_command 7 CD_CMD_FAILED (status_zero\<lparr>chk_err1 := 6\<rparr>),
                  E_mutex_unlock]\<rparr>) \<and>
   CD_ERR_SYS \<noteq> CD_ERR_DISC_CHG"
proof (intro conjI)
  show "check_command_ret env_disc_changed 0 = (CD_CMD_FAILED, status_zero\<lparr>chk_err1 := 6\<rparr>)"
    by (simp add: env_disc_changed_def)
  show "result_classifier CD_CMD_FAILED 6 = CD_ERR_DISC_CHG"
    by (simp add: result_classifier_def cd_consts)
  show "CD_ERR_SYS \<noteq> CD_ERR_DISC_CHG"
    by (simp add: cd_consts)
  have sub: "(0::nat) < CD_CMD_RETRY_MAX"
      "\<forall>j<0. send_command_ret env_disc_changed (n_send s_init + j) = 0"
      "0 < send_command_ret env_disc_changed (n_send s_init + 0)"
    by (simp_all add: env_disc_changed_def CD_CMD_RETRY_MAX_def)
  note poll4 = poll_loop.simps(2) [of 3, simplified]
  have cycle: "cdrom_exec_cmd_timed 4 env_disc_changed CMD_INIT PARAM_NULL 10000 s_init =
     (Some CD_ERR_SYS,
      s_init\<lparr>n_send := 1, n_check := 1, n_time := 1,
        trace := [E_mutex_lock, E_send_command CMD_INIT PARAM_NULL 7, E_gettime 1000,
                  E_exec_server,
                  E_check_command 7 CD_CMD_FAILED (status_zero\<lparr>chk_err1 := 6\<rparr>),
                  E_mutex_unlock]\<rparr>)"
    unfolding exec_polled [OF sub, of 4 CMD_INIT PARAM_NULL 10000]
    by (simp add: poll4 poll_entry_def poll_begin_def after_submit_def failed_attempts_def
          env_calls Let_def env_disc_changed_def env_slow_def s_init_def
          result_classifier_def status_zero_def cd_consts)
  have five: "(5::nat) = Suc 4" by simp
  have loop: "reinit_loop 5 (cdrom_exec_cmd_timed 4 env_disc_changed CMD_INIT PARAM_NULL 10000) s_init =
      cdrom_exec_cmd_timed 4 env_disc_changed CMD_INIT PARAM_NULL 10000 s_init"
    unfolding five by (rule reinit_loop_single_cycle)
  show "cdrom_reinit_ex 5 4 env_disc_changed CD_READ_DEFAULT CD_TRACK_TYPE_DEFAULT (-1) s_init =
     (Some CD_ERR_SYS,
      s_init\<lparr>n_send := 1, n_check := 1, n_time := 1,
        trace := [E_mutex_lock, E_send_command CMD_INIT PARAM_NULL 7, E_gettime 1000,
                  E_exec_server,
                  E_check_command 7 CD_CMD_FAILED (status_zero\<lparr>chk_err1 := 6\<rparr>),
                  E_mutex_unlock]\<rparr>)"
    unfolding cdrom_reinit_ex_def reinit_ex_flow_def loop cycle by simp
qed

end
